theory Spec2Isabelle
  imports Main "HOL-Library.AList"
begin

section \<open>JavaScript strings and numbers\<close>

text \<open>
  A JavaScript string is modelled as a \<open>string\<close>: header values and request paths are
  lists of 8-bit code units. A JavaScript number is modelled as an \<open>int\<close>, and a number
  that may be \<open>NaN\<close> (or \<open>undefined\<close>) as an \<open>int option\<close> with \<open>None\<close> for \<open>NaN\<close>:
  file sizes, byte offsets and header counts are integral, and the rounding of doubles
  beyond \<open>2^53\<close> is outside the model.
\<close>

text \<open>\<open>str.split(c)\<close> for a one-character separator: never the empty array.\<close>

fun split :: "char \<Rightarrow> string \<Rightarrow> string list" where
  "split c [] = [[]]"
| "split c (x # xs) =
     (if x = c then [] # split c xs
      else (case split c xs of
              [] \<Rightarrow> [[x]]
            | p # ps \<Rightarrow> (x # p) # ps))"

text \<open>\<open>arr[i]\<close>, with \<open>None\<close> for \<open>undefined\<close> past the end.\<close>

fun nth_opt :: "'a list \<Rightarrow> nat \<Rightarrow> 'a option" where
  "nth_opt [] n = None"
| "nth_opt (x # xs) 0 = Some x"
| "nth_opt (x # xs) (Suc n) = nth_opt xs n"

text \<open>\<open>str.indexOf(c)\<close> for a character: \<open>None\<close> for \<open>-1\<close>.\<close>

fun indexOf :: "string \<Rightarrow> char \<Rightarrow> nat option" where
  "indexOf [] c = None"
| "indexOf (x # xs) c = (if x = c then Some 0 else map_option Suc (indexOf xs c))"

text \<open>\<open>str.indexOf(sub) !== -1\<close> for a string \<open>sub\<close>.\<close>

fun starts_with :: "string \<Rightarrow> string \<Rightarrow> bool" where
  "starts_with [] s = True"
| "starts_with (p # ps) [] = False"
| "starts_with (p # ps) (x # xs) = (p = x \<and> starts_with ps xs)"

fun str_includes :: "string \<Rightarrow> string \<Rightarrow> bool" where
  "str_includes [] sub = (sub = [])"
| "str_includes (x # xs) sub = (starts_with sub (x # xs) \<or> str_includes xs sub)"

text \<open>The white space that \<open>parseInt\<close> skips, among 8-bit code units.\<close>

definition is_space :: "char \<Rightarrow> bool" where
  "is_space c = (c \<in> {CHR 0x09, CHR 0x0A, CHR 0x0B, CHR 0x0C, CHR 0x0D, CHR 0x20, CHR 0xA0})"

definition digit_of :: "char \<Rightarrow> nat option" where
  "digit_of c = map_of (zip ''0123456789'' [0, 1, 2, 3, 4, 5, 6, 7, 8, 9]) c"

text \<open>The longest prefix of decimal digits, read as a number; the flag tells whether
  one digit at least was read.\<close>

fun read_digits :: "nat \<Rightarrow> bool \<Rightarrow> string \<Rightarrow> nat option" where
  "read_digits acc seen [] = (if seen then Some acc else None)"
| "read_digits acc seen (c # cs) =
     (case digit_of c of
        Some d \<Rightarrow> read_digits (10 * acc + d) True cs
      | None \<Rightarrow> (if seen then Some acc else None))"

text \<open>\<open>parseInt(s, 10)\<close>: leading white space, an optional sign, then digits;
  \<open>NaN\<close> when no digit follows.\<close>

definition parseInt :: "string \<Rightarrow> int option" where
  "parseInt s =
     (case dropWhile is_space s of
        [] \<Rightarrow> None
      | c # cs \<Rightarrow>
          (if c = CHR ''-'' then map_option (\<lambda>n. - int n) (read_digits 0 False cs)
           else if c = CHR ''+'' then map_option int (read_digits 0 False cs)
           else map_option int (read_digits 0 False (c # cs))))"

text \<open>\<open>parseInt(x, 10)\<close> of a value that may be \<open>undefined\<close>: the string
  \<open>"undefined"\<close> has no digits.\<close>

definition parseInt_opt :: "string option \<Rightarrow> int option" where
  "parseInt_opt x = (case x of None \<Rightarrow> parseInt ''undefined'' | Some s \<Rightarrow> parseInt s)"

text \<open>\<open>String(n)\<close> of an integral number.\<close>

definition digit_char :: "nat \<Rightarrow> char" where
  "digit_char d = ''0123456789'' ! d"

text \<open>The decimal digits of a natural number, the last digit split off at each step.\<close>

fun string_of_nat :: "nat \<Rightarrow> string" where
  "string_of_nat n =
     (let last_digit = digit_char (n mod 10)
      in if 10 \<le> n then string_of_nat (n div 10) @ [last_digit] else [last_digit])"

definition string_of_int :: "int \<Rightarrow> string" where
  "string_of_int i = (if 0 \<le> i then string_of_nat (nat i) else CHR ''-'' # string_of_nat (nat (- i)))"

section \<open>The range parser\<close>

record range_item =
  r_start :: int
  r_end :: int

record indexed_range = range_item +
  r_index :: nat

text \<open>The three outcomes of \<open>rangeParser\<close>: \<open>-2\<close>, \<open>-1\<close>, or the array of ranges with
  its \<open>type\<close> property.\<close>

datatype ranges = Malformed | Unsatisfiable | Ranges string "range_item list"

definition mapWithIndex :: "range_item \<Rightarrow> nat \<Rightarrow> indexed_range" where
  "mapWithIndex rng index = \<lparr> r_start = r_start rng, r_end = r_end rng, r_index = index \<rparr>"

definition mapWithoutIndex :: "indexed_range \<Rightarrow> range_item" where
  "mapWithoutIndex rng = \<lparr> r_start = r_start rng, r_end = r_end rng \<rparr>"

text \<open>
  The loop of \<open>combineRanges\<close> over the array sorted by start: \<open>kept\<close> holds
  \<open>ordered[0..j-1]\<close>, \<open>current\<close> is \<open>ordered[j]\<close> and the list is \<open>ordered[i..]\<close>.
  At the end the array is trimmed to \<open>j + 1\<close> entries.
\<close>

fun combine_loop :: "indexed_range list \<Rightarrow> indexed_range \<Rightarrow> indexed_range list \<Rightarrow> indexed_range list" where
  "combine_loop kept current [] = kept @ [current]"
| "combine_loop kept current (rng # rest) =
     (if r_start rng > r_end current + 1 then
        combine_loop (kept @ [current]) rng rest
      else if r_end rng > r_end current then
        combine_loop kept (current\<lparr> r_end := r_end rng,
                                    r_index := min (r_index current) (r_index rng) \<rparr>) rest
      else combine_loop kept current rest)"

text \<open>\<open>Array.prototype.sort\<close> with a comparator that subtracts a numeric key is a
  stable sort by that key.\<close>

definition combineRanges :: "range_item list \<Rightarrow> range_item list" where
  "combineRanges rs =
     (let ordered = sort_key r_start (map (\<lambda>(r, i). mapWithIndex r i) (zip rs [0 ..< length rs]))
      in case ordered of
           [] \<Rightarrow> []
         | first # rest \<Rightarrow> map mapWithoutIndex (sort_key r_index (combine_loop [] first rest)))"

text \<open>One iteration of the parsing loop: \<open>None\<close> is \<open>continue\<close>, otherwise the range
  that is pushed.\<close>

definition parse_piece :: "int \<Rightarrow> string \<Rightarrow> range_item option" where
  "parse_piece sz piece =
     (let rng = split CHR ''-'' piece;
          start0 = parseInt_opt (nth_opt rng 0);
          end0 = parseInt_opt (nth_opt rng 1);
          (start1, end1) =
             (case start0 of
                None \<Rightarrow> (map_option (\<lambda>e. sz - e) end0, Some (sz - 1))
              | Some s \<Rightarrow> (case end0 of None \<Rightarrow> (Some s, Some (sz - 1))
                                       | Some e \<Rightarrow> (Some s, Some e)));
          end2 = map_option (\<lambda>e. if e > sz - 1 then sz - 1 else e) end1
      in case (start1, end2) of
           (Some s, Some e) \<Rightarrow> (if s > e \<or> s < 0 then None else Some \<lparr> r_start = s, r_end = e \<rparr>)
         | _ \<Rightarrow> None)"

definition rangeParser :: "int \<Rightarrow> string \<Rightarrow> bool \<Rightarrow> ranges" where
  "rangeParser sz str combine =
     (case indexOf str CHR ''='' of
        None \<Rightarrow> Malformed
      | Some index \<Rightarrow>
          (let arr = split CHR '','' (drop (index + 1) str);
               ranges = List.map_filter (parse_piece sz) arr
           in if length ranges < 1 then Unsatisfiable
              else Ranges (take index str) (if combine then combineRanges ranges else ranges)))"

section \<open>Requests, responses and the environment\<close>

text \<open>A header value set on a response is a string or a number.\<close>

datatype hval = Str string | Num int

text \<open>JavaScript truthiness of a header value that may be \<open>undefined\<close>.\<close>

definition truthy :: "hval option \<Rightarrow> bool" where
  "truthy v = (case v of None \<Rightarrow> False | Some (Str s) \<Rightarrow> s \<noteq> [] | Some (Num n) \<Rightarrow> n \<noteq> 0)"

text \<open>\<open>String(v)\<close>.\<close>

definition js_String :: "hval option \<Rightarrow> string" where
  "js_String v = (case v of None \<Rightarrow> ''undefined'' | Some (Str s) \<Rightarrow> s | Some (Num n) \<Rightarrow> string_of_int n)"

text \<open>\<open>name.toLowerCase()\<close> of a header name: header names are ASCII tokens.\<close>

definition toLowerCase_char :: "char \<Rightarrow> char" where
  "toLowerCase_char c =
     (case map_of (zip ''ABCDEFGHIJKLMNOPQRSTUVWXYZ'' ''abcdefghijklmnopqrstuvwxyz'') c of
        Some l \<Rightarrow> l
      | None \<Rightarrow> c)"

definition toLowerCase :: "string \<Rightarrow> string" where
  "toLowerCase s = map toLowerCase_char s"

text \<open>
  The response object: Node keeps the headers under their lower-cased names, in the
  order they were first set; \<open>res_body\<close> is \<open>None\<close> until \<open>res.end\<close> is called.
\<close>

record response =
  statusCode :: int
  res_headers :: "(string \<times> hval) list"
  headersSent :: bool
  res_body :: "string option"

definition res_getHeader :: "response \<Rightarrow> string \<Rightarrow> hval option" where
  "res_getHeader res name = map_of (res_headers res) (toLowerCase name)"

definition res_setHeader :: "response \<Rightarrow> string \<Rightarrow> hval \<Rightarrow> response" where
  "res_setHeader res name v = res\<lparr> res_headers := AList.update (toLowerCase name) v (res_headers res) \<rparr>"

definition res_removeHeader :: "response \<Rightarrow> string \<Rightarrow> response" where
  "res_removeHeader res name = res\<lparr> res_headers := AList.delete (toLowerCase name) (res_headers res) \<rparr>"

definition getHeaderNames :: "response \<Rightarrow> string list" where
  "getHeaderNames res = map fst (res_headers res)"

definition res_end :: "response \<Rightarrow> string \<Rightarrow> response" where
  "res_end res chunk = res\<lparr> res_body := Some chunk \<rparr>"

record request =
  req_method :: string
  req_headers :: "string \<rightharpoonup> string"

record stat =
  st_size :: int
  st_mtime :: int
  st_isDirectory :: bool

text \<open>
  What the Responder takes from its platform and from modules that are not part of the
  sources at hand: Node's \<open>decodeURIComponent\<close> (\<open>None\<close> when it throws), \<open>path\<close>,
  \<open>fs\<close> (an error code or a result), \<open>http.STATUS_CODES\<close>, \<open>Date\<close>, and the modules
  \<open>mime\<close>, \<open>etag\<close>, \<open>fresh\<close>, \<open>escape-html\<close>, \<open>encodeurl\<close> and the parser of \<open>ms\<close>.
  The theorems hold for every such environment.
\<close>

record env =
  decodeURIComponent :: "string \<Rightarrow> string option"
  path_sep :: char
  path_normalize :: "string \<Rightarrow> string"
  path_join :: "string \<Rightarrow> string \<Rightarrow> string"
  path_resolve :: "string \<Rightarrow> string"
  path_extname :: "string \<Rightarrow> string"
  fs_stat :: "string \<Rightarrow> string + stat"
  fs_read :: "string \<Rightarrow> int \<Rightarrow> int \<Rightarrow> string + string"
  STATUS_CODES :: "int \<Rightarrow> string option"
  Date_parse :: "string \<Rightarrow> int option"
  toUTCString :: "int \<Rightarrow> string"
  mime_getType :: "string \<Rightarrow> string option"
  etag :: "stat \<Rightarrow> string"
  fresh :: "(string \<rightharpoonup> string) \<Rightarrow> hval option \<Rightarrow> hval option \<Rightarrow> bool"
  escapeHtml :: "string \<Rightarrow> string"
  encodeUrl :: "string \<Rightarrow> string"
  ms_parse :: "string \<Rightarrow> int option"

section \<open>Options and construction\<close>

datatype list_option = Flag bool | Single string | Several "string list"

datatype maxage_option = Duration string | Millis "int option"

record options =
  opt_acceptRanges :: "bool option"
  opt_cacheControl :: "bool option"
  opt_dotfiles :: "string option"
  opt_end :: "int option"
  opt_etag :: "bool option"
  opt_extensions :: "list_option option"
  opt_index :: "list_option option"
  opt_lastModified :: "bool option"
  opt_maxAge :: "maxage_option option"
  opt_root :: "string option"
  opt_start :: "int option"

datatype js_error = TypeError string | Error string

text \<open>An error handed to \<open>SendStream.error\<close>: the \<open>code\<close> of a file-system error and
  the headers to put on the response.\<close>

record http_error =
  err_code :: "string option"
  err_headers :: "(string \<times> hval) list option"

text \<open>
  The \<open>SendStream\<close> object: its constructor arguments, the fields the constructor
  computes, and its listeners (whether an \<open>error\<close> and a \<open>directory\<close> listener are
  attached, and what the \<open>headers\<close> listeners do to the response).
\<close>

record sendstream =
  ss_req :: request
  ss_path :: string
  ss_options :: options
  ss_acceptRanges :: bool
  ss_cacheControl :: bool
  ss_etag :: bool
  ss_dotfiles :: "string option"
  ss_extensions :: "string list"
  ss_index :: "string list"
  ss_lastModified :: bool
  ss_maxage :: int
  ss_root :: "string option"
  ss_error_listener :: bool
  ss_directory_listener :: bool
  ss_headers_listener :: "(response \<Rightarrow> string \<Rightarrow> stat \<Rightarrow> response) option"

definition MAX_MAXAGE :: int where
  "MAX_MAXAGE = 60 * 60 * 24 * 365 * 1000"

text \<open>\<open>[].concat(val || [])\<close>, then the check that every entry is a string.\<close>

definition normalizeList :: "list_option \<Rightarrow> string \<Rightarrow> js_error + string list" where
  "normalizeList val name =
     (case val of
        Flag b \<Rightarrow> (if b then Inl (TypeError (name @ '' must be array of strings or false'')) else Inr [])
      | Single str \<Rightarrow> (if str = [] then Inr [] else Inr [str])
      | Several list \<Rightarrow> Inr list)"

text \<open>\<open>ms(val)\<close> for a string: the empty string is refused, any other is parsed.\<close>

definition ms :: "env \<Rightarrow> string \<Rightarrow> js_error + int option" where
  "ms e val =
     (if length val > 0 then Inr (ms_parse e val)
      else Inl (Error ''val is not a non-empty string or a valid number. val=\"\"''))"

definition SendStream :: "env \<Rightarrow> request \<Rightarrow> string \<Rightarrow> options \<Rightarrow> js_error + sendstream" where
  "SendStream e req path opts =
     (let dotfiles0 = (case opt_dotfiles opts of Some d \<Rightarrow> d | None \<Rightarrow> ''ignore'') in
      if dotfiles0 \<noteq> ''ignore'' \<and> dotfiles0 \<noteq> ''allow'' \<and> dotfiles0 \<noteq> ''deny'' then
        Inl (TypeError ''dotfiles option must be \"allow\", \"deny\", or \"ignore\"'')
      else
        case (case opt_extensions opts of Some v \<Rightarrow> normalizeList v ''extensions option'' | None \<Rightarrow> Inr []) of
          Inl err \<Rightarrow> Inl err
        | Inr exts \<Rightarrow>
        case (case opt_index opts of Some v \<Rightarrow> normalizeList v ''index option'' | None \<Rightarrow> Inr [''index.html'']) of
          Inl err \<Rightarrow> Inl err
        | Inr idx \<Rightarrow>
        case (case opt_maxAge opts of
                Some (Duration str) \<Rightarrow> ms e str
              | Some (Millis n) \<Rightarrow> Inr n
              | None \<Rightarrow> Inr None) of
          Inl err \<Rightarrow> Inl err
        | Inr maxage \<Rightarrow>
            Inr \<lparr> ss_req = req, ss_path = path, ss_options = opts,
                  ss_acceptRanges = (case opt_acceptRanges opts of Some b \<Rightarrow> b | None \<Rightarrow> True),
                  ss_cacheControl = (case opt_cacheControl opts of Some b \<Rightarrow> b | None \<Rightarrow> True),
                  ss_etag = (case opt_etag opts of Some b \<Rightarrow> b | None \<Rightarrow> True),
                  ss_dotfiles = (if opt_dotfiles opts = None then None else Some dotfiles0),
                  ss_extensions = exts,
                  ss_index = idx,
                  ss_lastModified = (case opt_lastModified opts of Some b \<Rightarrow> b | None \<Rightarrow> True),
                  ss_maxage = (case maxage of Some m \<Rightarrow> min (max 0 m) MAX_MAXAGE | None \<Rightarrow> 0),
                  ss_root = (case opt_root opts of
                               Some r \<Rightarrow> (if r = [] then None else Some (path_resolve e r))
                             | None \<Rightarrow> None),
                  ss_error_listener = False,
                  ss_directory_listener = False,
                  ss_headers_listener = None \<rparr>)"

section \<open>Helpers of the Responder\<close>

text \<open>\<open>Buffer.byteLength(doc)\<close>: a code unit below 128 is one byte of UTF-8, the
  others of the 8-bit range are two.\<close>

definition byteLength :: "string \<Rightarrow> int" where
  "byteLength doc = (\<Sum>c\<leftarrow>doc. if (of_char c :: nat) < 128 then 1 else 2)"

definition clearHeaders :: "response \<Rightarrow> response" where
  "clearHeaders res = foldl res_removeHeader res (getHeaderNames res)"

definition setHeaders :: "response \<Rightarrow> (string \<times> hval) list \<Rightarrow> response" where
  "setHeaders res hs = foldl (\<lambda>r (key, v). res_setHeader r key v) res hs"

definition collapseLeadingSlashes :: "string \<Rightarrow> string" where
  "collapseLeadingSlashes str =
     (let i = length (takeWhile (\<lambda>c. c = CHR ''/'') str)
      in if i > 1 then CHR ''/'' # drop i str else str)"

fun containsDotFile :: "string list \<Rightarrow> bool" where
  "containsDotFile [] = False"
| "containsDotFile (part # parts) =
     (if length part > 1 \<and> hd part = CHR ''.'' then True else containsDotFile parts)"

definition contentRange :: "string \<Rightarrow> int \<Rightarrow> range_item option \<Rightarrow> string" where
  "contentRange unit sz rng =
     unit @ '' '' @
     (case rng of
        Some r \<Rightarrow> string_of_int (r_start r) @ ''-'' @ string_of_int (r_end r)
      | None \<Rightarrow> ''*'') @
     ''/'' @ string_of_int sz"

definition createHtmlDocument :: "string \<Rightarrow> string \<Rightarrow> string" where
  "createHtmlDocument title body =
     ''<!DOCTYPE html>'' @ [CHR 0x0A] @
     ''<html lang=\"en\">'' @ [CHR 0x0A] @
     ''<head>'' @ [CHR 0x0A] @
     ''<meta charset=\"utf-8\">'' @ [CHR 0x0A] @
     ''<title>'' @ title @ ''</title>'' @ [CHR 0x0A] @
     ''</head>'' @ [CHR 0x0A] @
     ''<body>'' @ [CHR 0x0A] @
     ''<pre>'' @ body @ ''</pre>'' @ [CHR 0x0A] @
     ''</body>'' @ [CHR 0x0A] @
     ''</html>'' @ [CHR 0x0A]"

text \<open>\<open>parseHttpDate\<close>: \<open>date && Date.parse(String(date))\<close> is a number only for a
  truthy date or the number zero.\<close>

definition parseHttpDate :: "env \<Rightarrow> hval option \<Rightarrow> int option" where
  "parseHttpDate e date =
     (case date of
        None \<Rightarrow> None
      | Some (Num n) \<Rightarrow> (if n = 0 then Some 0 else Date_parse e (js_String date))
      | Some (Str str) \<Rightarrow> (if str = [] then None else Date_parse e (js_String date)))"

text \<open>\<open>str.substring(start, end)\<close> for \<open>start \<le> end\<close>.\<close>

definition substring :: "string \<Rightarrow> nat \<Rightarrow> nat \<Rightarrow> string" where
  "substring str start fin = take (fin - start) (drop start str)"

text \<open>The loop of \<open>parseTokenList\<close> at index \<open>i\<close>, over the characters from \<open>i\<close> on,
  and the final token.\<close>

fun parseTokenList_loop :: "string \<Rightarrow> nat \<Rightarrow> nat \<Rightarrow> nat \<Rightarrow> string \<Rightarrow> string list" where
  "parseTokenList_loop str i start fin [] = [substring str start fin]"
| "parseTokenList_loop str i start fin (c # cs) =
     (if c = CHR 0x20 then
        (if start = fin then parseTokenList_loop str (i + 1) (i + 1) (i + 1) cs
         else parseTokenList_loop str (i + 1) start fin cs)
      else if c = CHR 0x2C then
        substring str start fin # parseTokenList_loop str (i + 1) (i + 1) (i + 1) cs
      else parseTokenList_loop str (i + 1) start (i + 1) cs)"

definition parseTokenList :: "string \<Rightarrow> string list" where
  "parseTokenList str = parseTokenList_loop str 0 0 0 str"

definition getStatusCodeMessage :: "env \<Rightarrow> int \<Rightarrow> js_error + string" where
  "getStatusCodeMessage e status =
     (case STATUS_CODES e status of
        Some message \<Rightarrow> (if message = [] then Inl (Error (''invalid status code: '' @ string_of_int status))
                         else Inr message)
      | None \<Rightarrow> Inl (Error (''invalid status code: '' @ string_of_int status)))"

text \<open>\<open>createHttpError\<close>: the error given, or a new one made from the status message;
  the status is carried beside it.\<close>

definition createHttpError :: "env \<Rightarrow> int \<Rightarrow> http_error option \<Rightarrow> js_error + http_error" where
  "createHttpError e status err =
     (case err of
        Some er \<Rightarrow> Inr er
      | None \<Rightarrow> (case getStatusCodeMessage e status of
                   Inl x \<Rightarrow> Inl x
                 | Inr msg \<Rightarrow> Inr \<lparr> err_code = None, err_headers = None \<rparr>))"

text \<open>The regular expression \<open>/^ *bytes=/\<close>, tested on a header that may be absent.\<close>

definition BYTES_RANGE_REGEXP_test :: "string option \<Rightarrow> bool" where
  "BYTES_RANGE_REGEXP_test ranges =
     (case ranges of
        None \<Rightarrow> False
      | Some str \<Rightarrow> starts_with ''bytes='' (dropWhile (\<lambda>c. c = CHR 0x20) str))"

text \<open>The regular expression \<open>/(?:^|[\\/])\.\.(?:[\\/]|$)/\<close>: two dots followed by a
  slash, a backslash or the end, at the start of the string or after a slash or a
  backslash.\<close>

definition is_slash :: "char \<Rightarrow> bool" where
  "is_slash c = (c = CHR ''/'' \<or> c = CHR 0x5C)"

fun up_here :: "string \<Rightarrow> bool" where
  "up_here (a # b # rest) =
     (a = CHR ''.'' \<and> b = CHR ''.'' \<and> (case rest of [] \<Rightarrow> True | c # _ \<Rightarrow> is_slash c))"
| "up_here _ = False"

fun up_after :: "string \<Rightarrow> bool" where
  "up_after [] = False"
| "up_after (c # cs) = ((is_slash c \<and> up_here cs) \<or> up_after cs)"

definition UP_PATH_REGEXP_test :: "string \<Rightarrow> bool" where
  "UP_PATH_REGEXP_test str = (up_here str \<or> up_after str)"

section \<open>The Responder\<close>

text \<open>
  How a run of the Responder ends: it ended the response itself, it handed an error
  (with its status) or a directory to a listener and wrote nothing, or a call threw.
\<close>

datatype outcome =
    Responded response
  | Emitted_error int http_error response
  | Emitted_directory string response
  | Thrown js_error

definition error :: "env \<Rightarrow> sendstream \<Rightarrow> response \<Rightarrow> int \<Rightarrow> http_error option \<Rightarrow> outcome" where
  "error e s res status err =
     (if ss_error_listener s then
        (case createHttpError e status err of
           Inl x \<Rightarrow> Thrown x
         | Inr er \<Rightarrow> Emitted_error status er res)
      else
        (case getStatusCodeMessage e status of
           Inl x \<Rightarrow> Thrown x
         | Inr msg \<Rightarrow>
             (let doc = createHtmlDocument ''Error'' (escapeHtml e msg);
                  res1 = clearHeaders res;
                  res2 = (case err of
                            Some er \<Rightarrow> (case err_headers er of
                                          Some hs \<Rightarrow> setHeaders res1 hs
                                        | None \<Rightarrow> res1)
                          | None \<Rightarrow> res1);
                  res3 = res2\<lparr> statusCode := status \<rparr>;
                  res4 = res_setHeader res3 ''Content-Type'' (Str ''text/html; charset=UTF-8'');
                  res5 = res_setHeader res4 ''Content-Length'' (Num (byteLength doc));
                  res6 = res_setHeader res5 ''Content-Security-Policy'' (Str (''default-src 'self'' @ [CHR 0x27]));
                  res7 = res_setHeader res6 ''X-Content-Type-Options'' (Str ''nosniff'')
              in Responded (res_end res7 doc))))"

definition hasTrailingSlash :: "sendstream \<Rightarrow> bool" where
  "hasTrailingSlash s = (ss_path s \<noteq> [] \<and> last (ss_path s) = CHR ''/'')"

text \<open>A request header is truthy when it is present and not empty.\<close>

definition present :: "string option \<Rightarrow> bool" where
  "present h = (case h of None \<Rightarrow> False | Some v \<Rightarrow> v \<noteq> [])"

definition isConditionalGET :: "sendstream \<Rightarrow> bool" where
  "isConditionalGET s =
     (present (req_headers (ss_req s) ''if-match'') \<or>
      present (req_headers (ss_req s) ''if-unmodified-since'') \<or>
      present (req_headers (ss_req s) ''if-none-match'') \<or>
      present (req_headers (ss_req s) ''if-modified-since''))"

definition isPreconditionFailure :: "env \<Rightarrow> sendstream \<Rightarrow> response \<Rightarrow> bool" where
  "isPreconditionFailure e s res =
     (let unmodified =
            (case parseHttpDate e (map_option Str (req_headers (ss_req s) ''if-unmodified-since'')) of
               Some unmodifiedSince \<Rightarrow>
                 (case parseHttpDate e (res_getHeader res ''Last-Modified'') of
                    None \<Rightarrow> True
                  | Some modified \<Rightarrow> modified > unmodifiedSince)
             | None \<Rightarrow> False)
      in case req_headers (ss_req s) ''if-match'' of
           None \<Rightarrow> unmodified
         | Some match \<Rightarrow>
             (if match = [] then unmodified
              else
                (let tag = res_getHeader res ''ETag'' in
                 \<not> truthy tag \<or>
                 (match \<noteq> ''*'' \<and>
                  list_all (\<lambda>m. Some (Str m) \<noteq> tag \<and> m \<noteq> ''W/'' @ js_String tag \<and>
                                 Some (Str (''W/'' @ m)) \<noteq> tag)
                           (parseTokenList match)))))"

definition removeContentHeaderFields :: "response \<Rightarrow> response" where
  "removeContentHeaderFields res =
     foldl (\<lambda>r header. if take 8 header = ''content-'' \<and> header \<noteq> ''content-location''
                        then res_removeHeader r header else r)
           res (getHeaderNames res)"

definition notModified :: "response \<Rightarrow> outcome" where
  "notModified res = Responded (res_end ((removeContentHeaderFields res)\<lparr> statusCode := 304 \<rparr>) [])"

definition headersAlreadySent :: "env \<Rightarrow> sendstream \<Rightarrow> response \<Rightarrow> outcome" where
  "headersAlreadySent e s res = error e s res 500 (Some \<lparr> err_code = None, err_headers = None \<rparr>)"

definition isCachable :: "response \<Rightarrow> bool" where
  "isCachable res = ((statusCode res \<ge> 200 \<and> statusCode res < 300) \<or> statusCode res = 304)"

definition onStatError :: "env \<Rightarrow> sendstream \<Rightarrow> response \<Rightarrow> http_error \<Rightarrow> outcome" where
  "onStatError e s res err =
     (if err_code err = Some ''ENAMETOOLONG'' \<or> err_code err = Some ''ENOENT'' \<or>
         err_code err = Some ''ENOTDIR''
      then error e s res 404 (Some err)
      else error e s res 500 (Some err))"

definition isFresh :: "env \<Rightarrow> sendstream \<Rightarrow> response \<Rightarrow> bool" where
  "isFresh e s res =
     fresh e (req_headers (ss_req s)) (res_getHeader res ''ETag'') (res_getHeader res ''Last-Modified'')"

definition isRangeFresh :: "env \<Rightarrow> sendstream \<Rightarrow> response \<Rightarrow> bool" where
  "isRangeFresh e s res =
     (case req_headers (ss_req s) ''if-range'' of
        None \<Rightarrow> True
      | Some ifRange \<Rightarrow>
          (if ifRange = [] then True
           else if CHR 0x22 \<in> set ifRange then
             (let tag = js_String (res_getHeader res ''ETag'')
              in tag \<noteq> [] \<and> str_includes ifRange tag)
           else
             (case (parseHttpDate e (res_getHeader res ''Last-Modified''),
                    parseHttpDate e (Some (Str ifRange))) of
                (Some modified, Some since) \<Rightarrow> modified \<le> since
              | _ \<Rightarrow> False)))"

definition redirect :: "env \<Rightarrow> sendstream \<Rightarrow> response \<Rightarrow> string \<Rightarrow> outcome" where
  "redirect e s res path =
     (if ss_directory_listener s then Emitted_directory path res
      else if hasTrailingSlash s then error e s res 403 None
      else
        (let loc = encodeUrl e (collapseLeadingSlashes (ss_path s @ ''/''));
             doc = createHtmlDocument ''Redirecting''
                     (''Redirecting to <a href=\"'' @ escapeHtml e loc @ ''\">'' @ escapeHtml e loc @ ''</a>'');
             res1 = res\<lparr> statusCode := 301 \<rparr>;
             res2 = res_setHeader res1 ''Content-Type'' (Str ''text/html; charset=UTF-8'');
             res3 = res_setHeader res2 ''Content-Length'' (Num (byteLength doc));
             res4 = res_setHeader res3 ''Content-Security-Policy'' (Str (''default-src 'self'' @ [CHR 0x27]));
             res5 = res_setHeader res4 ''X-Content-Type-Options'' (Str ''nosniff'');
             res6 = res_setHeader res5 ''Location'' (Str loc)
         in Responded (res_end res6 doc)))"

text \<open>\<open>SendStream.type\<close>: the content type from the path, unless one is set.\<close>

definition type :: "env \<Rightarrow> response \<Rightarrow> string \<Rightarrow> response" where
  "type e res path =
     (if truthy (res_getHeader res ''Content-Type'') then res
      else (case mime_getType e path of
              None \<Rightarrow> res
            | Some t \<Rightarrow> (if t = [] then res else res_setHeader res ''Content-Type'' (Str t))))"

text \<open>\<open>SendStream.setHeader\<close>: the \<open>headers\<close> listeners run first, then each field is set
  unless it is there already.\<close>

definition setHeader :: "env \<Rightarrow> sendstream \<Rightarrow> response \<Rightarrow> string \<Rightarrow> stat \<Rightarrow> response" where
  "setHeader e s res path st =
     (let res0 = (case ss_headers_listener s of Some f \<Rightarrow> f res path st | None \<Rightarrow> res);
          res1 = (if ss_acceptRanges s \<and> \<not> truthy (res_getHeader res0 ''Accept-Ranges'')
                  then res_setHeader res0 ''Accept-Ranges'' (Str ''bytes'') else res0);
          res2 = (if ss_cacheControl s \<and> \<not> truthy (res_getHeader res1 ''Cache-Control'')
                  then res_setHeader res1 ''Cache-Control''
                         (Str (''public, max-age='' @ string_of_int (ss_maxage s div 1000)))
                  else res1);
          res3 = (if ss_lastModified s \<and> \<not> truthy (res_getHeader res2 ''Last-Modified'')
                  then res_setHeader res2 ''Last-Modified'' (Str (toUTCString e (st_mtime st)))
                  else res2);
          res4 = (if ss_etag s \<and> \<not> truthy (res_getHeader res3 ''ETag'')
                  then res_setHeader res3 ''ETag'' (Str (etag e st)) else res3)
      in res4)"

text \<open>The options handed to \<open>fs.createReadStream\<close>: the window to read, both ends
  inclusive.\<close>

record read_options =
  ro_start :: int
  ro_end :: int

text \<open>\<open>SendStream.stream\<close>: the file is read and piped to the response. The model
  covers a read that fails before the first byte is written (the error goes to
  \<open>onStatError\<close>) and a read that delivers the whole window.\<close>

definition stream :: "env \<Rightarrow> sendstream \<Rightarrow> response \<Rightarrow> string \<Rightarrow> read_options \<Rightarrow> outcome" where
  "stream e s res path opts =
     (case fs_read e path (ro_start opts) (ro_end opts) of
        Inl code \<Rightarrow> onStatError e s res \<lparr> err_code = Some code, err_headers = None \<rparr>
      | Inr bytes \<Rightarrow> Responded (res_end res bytes))"

text \<open>
  \<open>SendStream.send\<close> up to the point where the read options and the content length are
  set: either the run has ended (an error, a 304), or the transfer goes on with the
  response and the read options. The body of \<open>send\<close> is laid out in three definitions:
  \<open>send_plan\<close> (the checks before the range support), \<open>send_ranges\<close> and
  \<open>send_transfer\<close>.
\<close>

datatype send_plan = Finished outcome | Transfer response read_options

text \<open>The length adjusted to the \<open>start\<close> and \<open>end\<close> options.\<close>

definition window_len :: "options \<Rightarrow> int \<Rightarrow> int \<Rightarrow> int" where
  "window_len opts sz offset =
     (let len = max 0 (sz - offset)
      in case opt_end opts of
           None \<Rightarrow> len
         | Some fin \<Rightarrow> (let bytes = fin - offset + 1 in if len > bytes then bytes else len))"

text \<open>The end of \<open>send\<close>: the read options and the content length.\<close>

definition send_transfer :: "response \<Rightarrow> int \<Rightarrow> int \<Rightarrow> send_plan" where
  "send_transfer res offset len =
     Transfer (res_setHeader res ''Content-Length'' (Num len))
              \<lparr> ro_start = offset, ro_end = max offset (offset + len - 1) \<rparr>"

text \<open>The range support of \<open>send\<close>, on the response with its header fields set, the
  offset and the length of the window.\<close>

definition send_ranges :: "env \<Rightarrow> sendstream \<Rightarrow> response \<Rightarrow> int \<Rightarrow> int \<Rightarrow> send_plan" where
  "send_ranges e s res1 offset len =
     (let ranges = req_headers (ss_req s) ''range'' in
      if ss_acceptRanges s \<and> BYTES_RANGE_REGEXP_test ranges then
        (let parsed0 = rangeParser len (case ranges of Some str \<Rightarrow> str | None \<Rightarrow> ''undefined'') True;
             parsed = (if \<not> isRangeFresh e s res1 then Malformed else parsed0)
         in
         case parsed of
           Unsatisfiable \<Rightarrow>
             (let res2 = res_setHeader res1 ''Content-Range'' (Str (contentRange ''bytes'' len None))
              in Finished (error e s res2 416
                   (Some \<lparr> err_code = None,
                           err_headers = Some (case res_getHeader res2 ''Content-Range'' of
                                                 Some v \<Rightarrow> [(''Content-Range'', v)]
                                               | None \<Rightarrow> []) \<rparr>)))
         | Ranges t [r] \<Rightarrow>
             (let res2 = res1\<lparr> statusCode := 206 \<rparr>;
                  res3 = res_setHeader res2 ''Content-Range''
                           (Str (contentRange ''bytes'' len (Some r)))
              in send_transfer res3 (offset + r_start r) (r_end r - r_start r + 1))
         | _ \<Rightarrow> send_transfer res1 offset len)
      else send_transfer res1 offset len)"

definition send_plan :: "env \<Rightarrow> sendstream \<Rightarrow> response \<Rightarrow> string \<Rightarrow> stat \<Rightarrow> send_plan" where
  "send_plan e s res path st =
     (let opts = ss_options s;
          offset = (case opt_start opts of Some v \<Rightarrow> v | None \<Rightarrow> 0)
      in
      if headersSent res then Finished (headersAlreadySent e s res)
      else
        (let res1 = type e (setHeader e s res path st) path in
         if isConditionalGET s \<and> isPreconditionFailure e s res1 then
           Finished (error e s res1 412 None)
         else if isConditionalGET s \<and> isCachable res1 \<and> isFresh e s res1 then
           Finished (notModified res1)
         else send_ranges e s res1 offset (window_len opts (st_size st) offset)))"

definition send :: "env \<Rightarrow> sendstream \<Rightarrow> response \<Rightarrow> string \<Rightarrow> stat \<Rightarrow> outcome" where
  "send e s res path st =
     (case send_plan e s res path st of
        Finished out \<Rightarrow> out
      | Transfer res1 opts \<Rightarrow>
          (if req_method (ss_req s) = ''HEAD'' then Responded (res_end res1 [])
           else stream e s res1 path opts))"

text \<open>
  The file-system probes return the outcome and the paths handed to \<open>fs.stat\<close>, in order.
  \<open>sendFile_next\<close> is the closure \<open>next\<close> of \<open>sendFile\<close> over the extensions still to
  try; \<open>err\<close> is its argument.
\<close>

fun sendFile_next :: "env \<Rightarrow> sendstream \<Rightarrow> response \<Rightarrow> string \<Rightarrow> string list \<Rightarrow> http_error option
                       \<Rightarrow> outcome \<times> string list" where
  "sendFile_next e s res path [] err =
     (case err of Some er \<Rightarrow> (onStatError e s res er, [])
                | None \<Rightarrow> (error e s res 404 None, []))"
| "sendFile_next e s res path (ext # exts) err =
     (let p = path @ ''.'' @ ext in
      case fs_stat e p of
        Inl code \<Rightarrow>
          (let (out, log) = sendFile_next e s res path exts (Some \<lparr> err_code = Some code, err_headers = None \<rparr>)
           in (out, p # log))
      | Inr st \<Rightarrow>
          (if st_isDirectory st then
             (let (out, log) = sendFile_next e s res path exts None in (out, p # log))
           else (send e s res p st, [p])))"

definition sendFile :: "env \<Rightarrow> sendstream \<Rightarrow> response \<Rightarrow> string \<Rightarrow> outcome \<times> string list" where
  "sendFile e s res path =
     (case fs_stat e path of
        Inl code \<Rightarrow>
          (let err = \<lparr> err_code = Some code, err_headers = None \<rparr> in
           if code = ''ENOENT'' \<and> path_extname e path = [] \<and> (path = [] \<or> last path \<noteq> path_sep e) then
             (let (out, log) = sendFile_next e s res path (ss_extensions s) (Some err)
              in (out, path # log))
           else (onStatError e s res err, [path]))
      | Inr st \<Rightarrow>
          (if st_isDirectory st then (redirect e s res path, [path])
           else (send e s res path st, [path])))"

text \<open>\<open>sendIndex_next\<close> is the closure \<open>next\<close> of \<open>sendIndex\<close> over the index names still
  to try.\<close>

fun sendIndex_next :: "env \<Rightarrow> sendstream \<Rightarrow> response \<Rightarrow> string \<Rightarrow> string list \<Rightarrow> http_error option
                        \<Rightarrow> outcome \<times> string list" where
  "sendIndex_next e s res path [] err =
     (case err of Some er \<Rightarrow> (onStatError e s res er, [])
                | None \<Rightarrow> (error e s res 404 None, []))"
| "sendIndex_next e s res path (name # names) err =
     (let p = path_join e path name in
      case fs_stat e p of
        Inl code \<Rightarrow>
          (let (out, log) = sendIndex_next e s res path names (Some \<lparr> err_code = Some code, err_headers = None \<rparr>)
           in (out, p # log))
      | Inr st \<Rightarrow>
          (if st_isDirectory st then
             (let (out, log) = sendIndex_next e s res path names None in (out, p # log))
           else (send e s res p st, [p])))"

definition sendIndex :: "env \<Rightarrow> sendstream \<Rightarrow> response \<Rightarrow> string \<Rightarrow> outcome \<times> string list" where
  "sendIndex e s res path = sendIndex_next e s res path (ss_index s) None"

text \<open>
  \<open>SendStream.pipe\<close>. The first part decodes and checks the path: it ends with the
  status handed to \<open>error\<close>, or with the path parts and the path to serve.
\<close>

definition pipe_path :: "env \<Rightarrow> sendstream \<Rightarrow> int + (string list \<times> string)" where
  "pipe_path e s =
     (case decodeURIComponent e (ss_path s) of
        None \<Rightarrow> Inl 400
      | Some path \<Rightarrow>
          (if CHR 0x00 \<in> set path then Inl 400
           else
             (case ss_root s of
                Some rt \<Rightarrow>
                  (let path1 = (if path \<noteq> [] then path_normalize e (''.'' @ [path_sep e] @ path) else path)
                   in if UP_PATH_REGEXP_test path1 then Inl 403
                      else Inr (split (path_sep e) path1, path_normalize e (path_join e rt path1)))
              | None \<Rightarrow>
                  (if UP_PATH_REGEXP_test path then Inl 403
                   else Inr (split (path_sep e) (path_normalize e path), path_resolve e path)))))"

definition pipe_serve :: "env \<Rightarrow> sendstream \<Rightarrow> response \<Rightarrow> string \<Rightarrow> outcome \<times> string list" where
  "pipe_serve e s res path =
     (if ss_index s \<noteq> [] \<and> hasTrailingSlash s then sendIndex e s res path
      else sendFile e s res path)"

definition pipe :: "env \<Rightarrow> sendstream \<Rightarrow> response \<Rightarrow> outcome \<times> string list" where
  "pipe e s res =
     (case pipe_path e s of
        Inl status \<Rightarrow> (error e s res status None, [])
      | Inr (parts, path) \<Rightarrow>
          (if containsDotFile parts then
             (let access = ss_dotfiles s in
              if access = Some ''allow'' then pipe_serve e s res path
              else if access = Some ''deny'' then (error e s res 403 None, [])
              else (error e s res 404 None, []))
           else pipe_serve e s res path))"

section \<open>A concrete environment\<close>

text \<open>
  To evaluate the Responder on concrete requests, an environment is fixed: Node's POSIX
  \<open>path\<close> functions, \<open>decodeURIComponent\<close> on byte strings (a character outside ASCII
  is kept as its UTF-8 bytes), a file system given as a function, and simple stand-ins
  for the modules whose results no statement below depends on.
\<close>

text \<open>\<open>normalizeString\<close> of Node's \<open>path\<close>, on the segments between slashes: empty
  segments and \<open>.\<close> are dropped, \<open>..\<close> removes the segment before it, or stays when
  there is none to remove and the path is relative.\<close>

fun normalizeString_loop :: "bool \<Rightarrow> string list \<Rightarrow> string list \<Rightarrow> string list" where
  "normalizeString_loop allowAboveRoot res [] = res"
| "normalizeString_loop allowAboveRoot res (seg # segs) =
     (if seg = [] \<or> seg = ''.'' then normalizeString_loop allowAboveRoot res segs
      else if seg = ''..'' then
        (if res \<noteq> [] \<and> last res \<noteq> ''..'' then normalizeString_loop allowAboveRoot (butlast res) segs
         else if allowAboveRoot then normalizeString_loop allowAboveRoot (res @ [''..'']) segs
         else normalizeString_loop allowAboveRoot res segs)
      else normalizeString_loop allowAboveRoot (res @ [seg]) segs)"

fun join_slash :: "string list \<Rightarrow> string" where
  "join_slash [] = []"
| "join_slash [seg] = seg"
| "join_slash (seg # segs) = seg @ ''/'' @ join_slash segs"

definition normalizeString :: "string \<Rightarrow> bool \<Rightarrow> string" where
  "normalizeString path allowAboveRoot =
     join_slash (normalizeString_loop allowAboveRoot [] (split CHR ''/'' path))"

definition posix_normalize :: "string \<Rightarrow> string" where
  "posix_normalize path =
     (if path = [] then ''.''
      else
        (let isAbsolute = (hd path = CHR ''/'');
             trailingSeparator = (last path = CHR ''/'');
             p = normalizeString path (\<not> isAbsolute)
         in if p = [] then (if isAbsolute then ''/'' else if trailingSeparator then ''./'' else ''.'')
            else (let p1 = (if trailingSeparator then p @ ''/'' else p)
                  in if isAbsolute then CHR ''/'' # p1 else p1)))"

definition posix_join :: "string \<Rightarrow> string \<Rightarrow> string" where
  "posix_join a b =
     (if a = [] \<and> b = [] then ''.''
      else if a = [] then posix_normalize b
      else if b = [] then posix_normalize a
      else posix_normalize (a @ ''/'' @ b))"

definition posix_resolve :: "string \<Rightarrow> string \<Rightarrow> string" where
  "posix_resolve cwd path =
     (let resolved = (if path \<noteq> [] \<and> hd path = CHR ''/'' then path
                      else if path = [] then cwd
                      else cwd @ ''/'' @ path)
      in CHR ''/'' # normalizeString resolved False)"

text \<open>\<open>path.extname\<close>: from the last dot of the last segment, unless that dot starts the
  segment or the segment is \<open>..\<close>.\<close>

definition posix_extname :: "string \<Rightarrow> string" where
  "posix_extname path =
     (let stripped = rev (dropWhile (\<lambda>c. c = CHR ''/'') (rev path));
          base = rev (takeWhile (\<lambda>c. c \<noteq> CHR ''/'') (rev stripped));
          ext = rev (takeWhile (\<lambda>c. c \<noteq> CHR ''.'') (rev base))
      in if CHR ''.'' \<notin> set base \<or> length ext + 1 = length base \<or> base = ''..'' then []
         else CHR ''.'' # ext)"

definition hex_digit :: "char \<Rightarrow> nat option" where
  "hex_digit c =
     (case digit_of c of
        Some d \<Rightarrow> Some d
      | None \<Rightarrow> map_of (zip ''abcdefABCDEF'' [10, 11, 12, 13, 14, 15, 10, 11, 12, 13, 14, 15]) c)"

text \<open>The escapes of a string: a character as it stands, or the octet of \<open>%XX\<close>;
  \<open>None\<close> for a percent sign that two hexadecimal digits do not follow.\<close>

datatype uri_token = Plain char | Octet nat

fun uri_tokens :: "string \<Rightarrow> uri_token list option" where
  "uri_tokens [] = Some []"
| "uri_tokens (c # cs) =
     (if c = CHR ''%'' then
        (case cs of
           h # l # rest \<Rightarrow>
             (case (hex_digit h, hex_digit l) of
                (Some a, Some b) \<Rightarrow> map_option ((#) (Octet (16 * a + b))) (uri_tokens rest)
              | _ \<Rightarrow> None)
         | _ \<Rightarrow> None)
      else map_option ((#) (Plain c)) (uri_tokens cs))"

definition cont_octet :: "nat \<Rightarrow> nat \<Rightarrow> uri_token \<Rightarrow> bool" where
  "cont_octet lo hi t = (case t of Octet b \<Rightarrow> lo \<le> b \<and> b \<le> hi | Plain c \<Rightarrow> False)"

definition octet_char :: "uri_token \<Rightarrow> char" where
  "octet_char t = (case t of Octet b \<Rightarrow> char_of b | Plain c \<Rightarrow> c)"

text \<open>The escaped octets must be UTF-8: an ASCII octet alone, or a lead octet with the
  continuation octets it calls for, each escaped as well.\<close>

fun utf8_octets :: "uri_token list \<Rightarrow> string option" where
  "utf8_octets [] = Some []"
| "utf8_octets (Plain c # ts) = map_option ((#) c) (utf8_octets ts)"
| "utf8_octets (Octet b # ts) =
     (if b < 128 then map_option ((#) (char_of b)) (utf8_octets ts)
      else if 194 \<le> b \<and> b \<le> 223 then
        (case ts of
           t1 # rest \<Rightarrow>
             (if cont_octet 128 191 t1
              then map_option (\<lambda>r. char_of b # octet_char t1 # r) (utf8_octets rest) else None)
         | _ \<Rightarrow> None)
      else if 224 \<le> b \<and> b \<le> 239 then
        (case ts of
           t1 # t2 # rest \<Rightarrow>
             (if cont_octet (if b = 224 then 160 else 128) (if b = 237 then 159 else 191) t1 \<and>
                 cont_octet 128 191 t2
              then map_option (\<lambda>r. char_of b # octet_char t1 # octet_char t2 # r) (utf8_octets rest)
              else None)
         | _ \<Rightarrow> None)
      else if 240 \<le> b \<and> b \<le> 244 then
        (case ts of
           t1 # t2 # t3 # rest \<Rightarrow>
             (if cont_octet (if b = 240 then 144 else 128) (if b = 244 then 143 else 191) t1 \<and>
                 cont_octet 128 191 t2 \<and> cont_octet 128 191 t3
              then map_option (\<lambda>r. char_of b # octet_char t1 # octet_char t2 # octet_char t3 # r)
                              (utf8_octets rest)
              else None)
         | _ \<Rightarrow> None)
      else None)"

definition posix_decodeURIComponent :: "string \<Rightarrow> string option" where
  "posix_decodeURIComponent str =
     (case uri_tokens str of None \<Rightarrow> None | Some ts \<Rightarrow> utf8_octets ts)"

text \<open>The status messages of Node for the statuses the Responder uses.\<close>

definition node_STATUS_CODES :: "int \<Rightarrow> string option" where
  "node_STATUS_CODES status =
     (if status = 301 then Some ''Moved Permanently''
      else if status = 400 then Some ''Bad Request''
      else if status = 403 then Some ''Forbidden''
      else if status = 404 then Some ''Not Found''
      else if status = 412 then Some ''Precondition Failed''
      else if status = 416 then Some ''Range Not Satisfiable''
      else if status = 500 then Some ''Internal Server Error''
      else None)"

text \<open>The environment over a working directory, a file system and the oracle of
  the \<open>fresh\<close> module.\<close>

definition posix_env :: "string \<Rightarrow> (string \<Rightarrow> string + stat) \<Rightarrow> (string \<Rightarrow> string)
                         \<Rightarrow> ((string \<rightharpoonup> string) \<Rightarrow> hval option \<Rightarrow> hval option \<Rightarrow> bool) \<Rightarrow> env" where
  "posix_env cwd files contents is_fresh =
     \<lparr> decodeURIComponent = posix_decodeURIComponent,
       path_sep = CHR ''/'',
       path_normalize = posix_normalize,
       path_join = posix_join,
       path_resolve = posix_resolve cwd,
       path_extname = posix_extname,
       fs_stat = files,
       fs_read = (\<lambda>path start fin. Inr (take (nat (fin - start + 1)) (drop (nat start) (contents path)))),
       STATUS_CODES = node_STATUS_CODES,
       Date_parse = (\<lambda>str. None),
       toUTCString = (\<lambda>mtime. ''mtime '' @ string_of_int mtime),
       mime_getType = (\<lambda>path. None),
       etag = (\<lambda>st. ''W/'' @ [CHR 0x22] @ string_of_int (st_size st) @ ''-'' @ string_of_int (st_mtime st) @ [CHR 0x22]),
       fresh = is_fresh,
       escapeHtml = (\<lambda>str. str),
       encodeUrl = (\<lambda>str. str),
       ms_parse = (\<lambda>str. None) \<rparr>"

text \<open>Names for the statements below: the response as \<open>send\<close> has it once the header
  fields and the content type are set, the offset, the length of the window the
  \<open>start\<close> and \<open>end\<close> options leave, and whether \<open>send\<close> gets past the check of
  sent headers and the conditional-GET checks.\<close>

definition prepared :: "env \<Rightarrow> sendstream \<Rightarrow> response \<Rightarrow> string \<Rightarrow> stat \<Rightarrow> response" where
  "prepared e s res path st = type e (setHeader e s res path st) path"

definition send_offset :: "sendstream \<Rightarrow> int" where
  "send_offset s = (case opt_start (ss_options s) of Some v \<Rightarrow> v | None \<Rightarrow> 0)"

definition effective_len :: "sendstream \<Rightarrow> stat \<Rightarrow> int" where
  "effective_len s st = window_len (ss_options s) (st_size st) (send_offset s)"

definition passes_conditions :: "env \<Rightarrow> sendstream \<Rightarrow> response \<Rightarrow> string \<Rightarrow> stat \<Rightarrow> bool" where
  "passes_conditions e s res path st =
     (\<not> headersSent res \<and>
      (isConditionalGET s \<longrightarrow>
         \<not> isPreconditionFailure e s (prepared e s res path st) \<and>
         \<not> (isCachable (prepared e s res path st) \<and> isFresh e s (prepared e s res path st))))"

text \<open>The response an outcome wrote, if it wrote one.\<close>

definition written :: "outcome \<Rightarrow> response option" where
  "written out = (case out of Responded res \<Rightarrow> Some res | _ \<Rightarrow> None)"

text \<open>
  The components of a path as the claims speak of them: the pieces between slashes and
  backslashes. \<open>checked_path\<close> is the string \<open>pipe\<close> looks at for a \<open>..\<close> component: the
  decoded path, or with a root the non-empty decoded path normalized as a relative path.
\<close>

fun components :: "string \<Rightarrow> string list" where
  "components [] = [[]]"
| "components (c # cs) =
     (if is_slash c then [] # components cs
      else (case components cs of
              [] \<Rightarrow> [[c]]
            | p # ps \<Rightarrow> (c # p) # ps))"

definition checked_path :: "env \<Rightarrow> sendstream \<Rightarrow> string \<Rightarrow> string" where
  "checked_path e s p =
     (if ss_root s \<noteq> None \<and> p \<noteq> [] then path_normalize e (''.'' @ [path_sep e] @ p) else p)"

text \<open>Two predicates on responses for the statement about \<open>Content-Range\<close>: the header is
  there exactly for the statuses 206 and 416, and a response that has neither the header
  nor one of these statuses yet.\<close>

definition range_header_matches :: "response \<Rightarrow> bool" where
  "range_header_matches res =
     (res_getHeader res ''Content-Range'' \<noteq> None \<longleftrightarrow> statusCode res = 206 \<or> statusCode res = 416)"

definition no_range_yet :: "response \<Rightarrow> bool" where
  "no_range_yet res =
     (res_getHeader res ''Content-Range'' = None \<and> statusCode res \<noteq> 206 \<and> statusCode res \<noteq> 416)"

text \<open>A range within a size: \<open>0 \<le> start \<le> end < size\<close>.\<close>

definition in_bounds :: "int \<Rightarrow> 'a range_item_scheme \<Rightarrow> bool" where
  "in_bounds sz r = (0 \<le> r_start r \<and> r_start r \<le> r_end r \<and> r_end r < sz)"

text \<open>A header of the response an outcome wrote.\<close>

definition written_header :: "outcome \<Rightarrow> string \<Rightarrow> hval option" where
  "written_header out name = (case written out of Some res \<Rightarrow> res_getHeader res name | None \<Rightarrow> None)"

section \<open>Example requests\<close>

text \<open>The options object \<open>{}\<close>, a response nothing has been written to, and a small
  file system under \<open>/srv\<close>.\<close>

definition no_options :: options where
  "no_options =
     \<lparr> opt_acceptRanges = None, opt_cacheControl = None, opt_dotfiles = None, opt_end = None,
       opt_etag = None, opt_extensions = None, opt_index = None, opt_lastModified = None,
       opt_maxAge = None, opt_root = None, opt_start = None \<rparr>"

definition new_response :: response where
  "new_response = \<lparr> statusCode = 200, res_headers = [], headersSent = False, res_body = None \<rparr>"

definition example_files :: "string \<Rightarrow> string + stat" where
  "example_files p =
     (if p = ''/srv/a.txt'' then Inr \<lparr> st_size = 6, st_mtime = 1000, st_isDirectory = False \<rparr>
      else if p = ''/srv/abc'' then Inr \<lparr> st_size = 3, st_mtime = 1000, st_isDirectory = False \<rparr>
      else if p = ''/srv/empty'' then Inr \<lparr> st_size = 0, st_mtime = 1000, st_isDirectory = False \<rparr>
      else if p = ''/srv/.hidden/file.txt'' then Inr \<lparr> st_size = 3, st_mtime = 1000, st_isDirectory = False \<rparr>
      else if p = ''/srv/sub'' then Inr \<lparr> st_size = 0, st_mtime = 1000, st_isDirectory = True \<rparr>
      else Inl ''ENOENT'')"

definition example_contents :: "string \<Rightarrow> string" where
  "example_contents p =
     (if p = ''/srv/a.txt'' then ''hello'' @ [CHR 0x0A]
      else if p = ''/srv/empty'' then []
      else ''abc'')"

text \<open>In the example environment a request is fresh when its \<open>If-None-Match\<close> header is
  the entity tag of the response.\<close>

definition example_env :: env where
  "example_env =
     posix_env ''/srv'' example_files example_contents
       (\<lambda>hs tag modified. case hs ''if-none-match'' of Some v \<Rightarrow> Some (Str v) = tag | None \<Rightarrow> False)"

text \<open>A stream made by the constructor; no listener is attached.\<close>

definition example_stream :: "string \<Rightarrow> (string \<rightharpoonup> string) \<Rightarrow> string \<Rightarrow> options \<Rightarrow> sendstream" where
  "example_stream meth hs path opts =
     projr (SendStream example_env \<lparr> req_method = meth, req_headers = hs \<rparr> path opts)"

definition srv_options :: options where
  "srv_options = no_options\<lparr> opt_root := Some ''/srv'' \<rparr>"

definition stat_a_txt :: stat where
  "stat_a_txt = \<lparr> st_size = 6, st_mtime = 1000, st_isDirectory = False \<rparr>"

text \<open>The entity tag of \<open>/srv/a.txt\<close> in the example environment: \<open>W/"6-1000"\<close>.\<close>

definition tag_a_txt :: string where
  "tag_a_txt = ''W/'' @ [CHR 0x22] @ ''6-1000'' @ [CHR 0x22]"

definition stat_abc :: stat where
  "stat_abc = \<lparr> st_size = 3, st_mtime = 1000, st_isDirectory = False \<rparr>"

definition stat_empty :: stat where
  "stat_empty = \<lparr> st_size = 0, st_mtime = 1000, st_isDirectory = False \<rparr>"

section \<open>Lower-cased header names\<close>

lemma lower_names [simp]:
  "toLowerCase ''Accept-Ranges'' = ''accept-ranges''"
  "toLowerCase ''Cache-Control'' = ''cache-control''"
  "toLowerCase ''Last-Modified'' = ''last-modified''"
  "toLowerCase ''ETag'' = ''etag''"
  "toLowerCase ''Content-Type'' = ''content-type''"
  "toLowerCase ''Content-Range'' = ''content-range''"
  "toLowerCase ''Content-Length'' = ''content-length''"
  "toLowerCase ''Content-Location'' = ''content-location''"
  "toLowerCase ''Content-Security-Policy'' = ''content-security-policy''"
  "toLowerCase ''X-Content-Type-Options'' = ''x-content-type-options''"
  "toLowerCase ''Location'' = ''location''"
  "toLowerCase ''X-Served-By'' = ''x-served-by''"
  by code_simp+

lemma lower_names_fixed [simp]:
  "toLowerCase ''accept-ranges'' = ''accept-ranges''"
  "toLowerCase ''cache-control'' = ''cache-control''"
  "toLowerCase ''last-modified'' = ''last-modified''"
  "toLowerCase ''etag'' = ''etag''"
  "toLowerCase ''content-type'' = ''content-type''"
  "toLowerCase ''content-range'' = ''content-range''"
  "toLowerCase ''content-length'' = ''content-length''"
  "toLowerCase ''content-location'' = ''content-location''"
  "toLowerCase ''content-security-policy'' = ''content-security-policy''"
  "toLowerCase ''x-content-type-options'' = ''x-content-type-options''"
  "toLowerCase ''location'' = ''location''"
  "toLowerCase ''x-served-by'' = ''x-served-by''"
  by code_simp+

section \<open>Facts about response headers\<close>

declare string_of_nat.simps [simp del]

lemma toLowerCase_char_idem: "toLowerCase_char (toLowerCase_char c) = toLowerCase_char c"
  unfolding toLowerCase_char_def
  by (auto split: option.splits if_splits)

lemma toLowerCase_idem [simp]: "toLowerCase (toLowerCase s) = toLowerCase s"
  by (simp add: toLowerCase_def toLowerCase_char_idem)

lemma getHeader_setHeader:
  "res_getHeader (res_setHeader res n v) m =
     (if toLowerCase m = toLowerCase n then Some v else res_getHeader res m)"
  by (simp add: res_getHeader_def res_setHeader_def update_conv')

lemma getHeader_removeHeader:
  "res_getHeader (res_removeHeader res n) m =
     (if toLowerCase m = toLowerCase n then None else res_getHeader res m)"
  by (simp add: res_getHeader_def res_removeHeader_def delete_conv')

lemma getHeader_statusCode_update [simp]:
  "res_getHeader (res\<lparr> statusCode := c \<rparr>) m = res_getHeader res m"
  by (simp add: res_getHeader_def)

lemma getHeader_end [simp]: "res_getHeader (res_end res b) m = res_getHeader res m"
  by (simp add: res_getHeader_def res_end_def)

lemma statusCode_setHeader [simp]: "statusCode (res_setHeader res n v) = statusCode res"
  by (simp add: res_setHeader_def)

lemma statusCode_removeHeader [simp]: "statusCode (res_removeHeader res n) = statusCode res"
  by (simp add: res_removeHeader_def)

lemma statusCode_end [simp]: "statusCode (res_end res b) = statusCode res"
  by (simp add: res_end_def)

lemma body_end [simp]: "res_body (res_end res b) = Some b"
  by (simp add: res_end_def)

lemma getHeader_foldl_remove:
  "res_getHeader (foldl res_removeHeader res names) m =
     (if toLowerCase m \<in> toLowerCase ` set names then None else res_getHeader res m)"
  by (induction names arbitrary: res) (auto simp: getHeader_removeHeader)

text \<open>After \<open>clearHeaders\<close> no header can be read.\<close>

lemma getHeader_clearHeaders: "res_getHeader (clearHeaders res) m = None"
proof (cases "res_getHeader res m")
  case None
  then show ?thesis by (simp add: clearHeaders_def getHeader_foldl_remove)
next
  case (Some v)
  then have "toLowerCase m \<in> set (getHeaderNames res)"
    by (auto simp: res_getHeader_def getHeaderNames_def dest: map_of_SomeD intro: rev_image_eqI)
  then have "toLowerCase m \<in> toLowerCase ` set (getHeaderNames res)"
    by (metis image_eqI toLowerCase_idem)
  then show ?thesis by (simp add: clearHeaders_def getHeader_foldl_remove)
qed

lemma statusCode_clearHeaders [simp]: "statusCode (clearHeaders res) = statusCode res"
proof -
  have "statusCode (foldl res_removeHeader r names) = statusCode r" for r names
    by (induction names arbitrary: r) auto
  then show ?thesis by (simp add: clearHeaders_def)
qed

text \<open>What \<open>error\<close> writes when no listener is attached and the status has a message.\<close>

lemma error_responds:
  assumes "\<not> ss_error_listener s" and "STATUS_CODES e status = Some msg" and "msg \<noteq> []"
  shows "\<exists>res'. error e s res status err = Responded res' \<and>
           statusCode res' = status \<and>
           res_body res' = Some (createHtmlDocument ''Error'' (escapeHtml e msg)) \<and>
           res_getHeader res' ''Content-Range'' =
             (case err of
                Some er \<Rightarrow> (case err_headers er of
                              Some hs \<Rightarrow> res_getHeader (setHeaders (clearHeaders res) hs) ''Content-Range''
                            | None \<Rightarrow> None)
              | None \<Rightarrow> None)"
  using assms
  by (auto simp: error_def getStatusCodeMessage_def Let_def getHeader_setHeader getHeader_clearHeaders
        split: option.splits)

section \<open>Facts about \<open>send\<close>\<close>

lemma getHeader_setHeaders_single:
  "res_getHeader (setHeaders res [(n, v)]) m =
     (if toLowerCase m = toLowerCase n then Some v else res_getHeader res m)"
  by (simp add: setHeaders_def getHeader_setHeader)

lemma contentRange_star: "contentRange ''bytes'' len None = ''bytes */'' @ string_of_int len"
  by (simp add: contentRange_def)

text \<open>The run of \<open>send\<close> for a range header that no range satisfies.\<close>

lemma send_unsatisfiable:
  assumes "passes_conditions e s res path st"
    and "ss_acceptRanges s"
    and "req_headers (ss_req s) ''range'' = Some r"
    and "BYTES_RANGE_REGEXP_test (Some r)"
    and "isRangeFresh e s (prepared e s res path st)"
    and "rangeParser (effective_len s st) r True = Unsatisfiable"
  shows "send e s res path st =
           error e s (res_setHeader (prepared e s res path st) ''Content-Range''
                        (Str (''bytes */'' @ string_of_int (effective_len s st))))
             416 (Some \<lparr> err_code = None,
                          err_headers = Some [(''Content-Range'',
                             Str (''bytes */'' @ string_of_int (effective_len s st)))] \<rparr>)"
  using assms
  by (auto simp: send_def send_plan_def send_ranges_def passes_conditions_def prepared_def effective_len_def
        send_offset_def Let_def getHeader_setHeader contentRange_star)

lemma send_416:
  assumes "passes_conditions e s res path st"
    and "ss_acceptRanges s"
    and "req_headers (ss_req s) ''range'' = Some r"
    and "BYTES_RANGE_REGEXP_test (Some r)"
    and "isRangeFresh e s (prepared e s res path st)"
    and "rangeParser (effective_len s st) r True = Unsatisfiable"
    and "\<not> ss_error_listener s"
    and "STATUS_CODES e 416 = Some msg" and "msg \<noteq> []"
  shows "\<exists>res'. send e s res path st = Responded res' \<and> statusCode res' = 416 \<and>
           res_getHeader res' ''Content-Range'' =
             Some (Str (''bytes */'' @ string_of_int (effective_len s st))) \<and>
           res_body res' = Some (createHtmlDocument ''Error'' (escapeHtml e msg))"
proof -
  let ?cr = "Str (''bytes */'' @ string_of_int (effective_len s st))"
  let ?res2 = "res_setHeader (prepared e s res path st) ''Content-Range'' ?cr"
  let ?err = "Some \<lparr> err_code = None, err_headers = Some [(''Content-Range'', ?cr)] \<rparr>"
  from error_responds [OF assms(7-9), of ?res2 ?err]
  obtain res' where "error e s ?res2 416 ?err = Responded res'" and "statusCode res' = 416"
    and "res_body res' = Some (createHtmlDocument ''Error'' (escapeHtml e msg))"
    and "res_getHeader res' ''Content-Range'' = Some ?cr"
    by (auto simp: getHeader_setHeaders_single)
  with send_unsatisfiable [OF assms(1-6)] show ?thesis by simp
qed

section \<open>The example stream\<close>

lemma resolve_srv: "posix_resolve ''/srv'' ''/srv'' = ''/srv''"
  by code_simp

lemma example_stream_srv:
  "example_stream meth hs path srv_options =
     \<lparr> ss_req = \<lparr> req_method = meth, req_headers = hs \<rparr>,
       ss_path = path, ss_options = srv_options,
       ss_acceptRanges = True, ss_cacheControl = True, ss_etag = True, ss_dotfiles = None,
       ss_extensions = [], ss_index = [''index.html''], ss_lastModified = True, ss_maxage = 0,
       ss_root = Some ''/srv'', ss_error_listener = False, ss_directory_listener = False,
       ss_headers_listener = None \<rparr>"
  by (simp add: example_stream_def SendStream_def srv_options_def no_options_def example_env_def
        posix_env_def resolve_srv)

lemma example_env_simps [simp]:
  "decodeURIComponent example_env = posix_decodeURIComponent"
  "path_sep example_env = CHR ''/''"
  "path_normalize example_env = posix_normalize"
  "path_join example_env = posix_join"
  "path_resolve example_env = posix_resolve ''/srv''"
  "path_extname example_env = posix_extname"
  "fs_stat example_env = example_files"
  "STATUS_CODES example_env = node_STATUS_CODES"
  "Date_parse example_env = (\<lambda>str. None)"
  "mime_getType example_env = (\<lambda>path. None)"
  "escapeHtml example_env = (\<lambda>str. str)"
  "encodeUrl example_env = (\<lambda>str. str)"
  "fresh example_env =
     (\<lambda>hs tag modified. case hs ''if-none-match'' of Some v \<Rightarrow> Some (Str v) = tag | None \<Rightarrow> False)"
  by (simp_all add: example_env_def posix_env_def)

lemma srv_options_simps [simp]:
  "opt_start srv_options = None" "opt_end srv_options = None"
  by (simp_all add: srv_options_def no_options_def)

section \<open>Facts about decimal numbers and the range parser\<close>

lemma digit_of_digit_char: "d < 10 \<Longrightarrow> digit_of (digit_char d) = Some d"
proof -
  assume "d < 10"
  then have "d \<in> {0, 1, 2, 3, 4, 5, 6, 7, 8, 9}" by auto
  then show ?thesis
    by (auto simp: digit_of_def digit_char_def)
qed

lemma digit_char_in_digits: "d < 10 \<Longrightarrow> digit_char d \<in> set ''0123456789''"
proof -
  assume "d < 10"
  then have "d \<in> {0, 1, 2, 3, 4, 5, 6, 7, 8, 9}" by auto
  then show ?thesis
    by (auto simp: digit_char_def)
qed

lemma string_of_nat_unfold:
  "string_of_nat n =
     (if 10 \<le> n then string_of_nat (n div 10) @ [digit_char (n mod 10)] else [digit_char n])"
  by (subst string_of_nat.simps) (simp add: Let_def)

lemma string_of_nat_digits: "set (string_of_nat n) \<subseteq> set ''0123456789''"
proof (induction n rule: string_of_nat.induct)
  case (1 n)
  show ?case
  proof (cases "10 \<le> n")
    case True
    with 1 [OF refl] have "set (string_of_nat (n div 10)) \<subseteq> set ''0123456789''" by simp
    moreover have "digit_char (n mod 10) \<in> set ''0123456789''"
      by (rule digit_char_in_digits) simp
    ultimately show ?thesis
      by (subst string_of_nat_unfold) (use True in auto)
  next
    case False
    then have "digit_char n \<in> set ''0123456789''"
      by (intro digit_char_in_digits) simp
    with False show ?thesis
      by (subst string_of_nat_unfold) auto
  qed
qed

lemma string_of_nat_nonempty: "string_of_nat n \<noteq> []"
  by (subst string_of_nat_unfold) simp

lemma read_digits_string_of_nat:
  "read_digits acc seen (string_of_nat n @ rest) =
     read_digits (acc * 10 ^ length (string_of_nat n) + n) True rest"
proof (induction n arbitrary: acc seen rest rule: string_of_nat.induct)
  case (1 n)
  show ?case
  proof (cases "10 \<le> n")
    case True
    let ?d = "digit_char (n mod 10)"
    have d: "digit_of ?d = Some (n mod 10)"
      by (rule digit_of_digit_char) simp
    have unf: "string_of_nat n = string_of_nat (n div 10) @ [?d]"
      using True by (subst string_of_nat_unfold) simp
    have "read_digits acc seen (string_of_nat n @ rest) =
          read_digits acc seen (string_of_nat (n div 10) @ (?d # rest))"
      by (simp add: unf)
    also have "\<dots> = read_digits (acc * 10 ^ length (string_of_nat (n div 10)) + n div 10) True (?d # rest)"
      using 1 [OF refl True, of acc seen "?d # rest"] by simp
    also have "\<dots> = read_digits (10 * (acc * 10 ^ length (string_of_nat (n div 10)) + n div 10) + n mod 10) True rest"
      by (simp add: d)
    also have "10 * (acc * 10 ^ length (string_of_nat (n div 10)) + n div 10) + n mod 10 =
               acc * 10 ^ length (string_of_nat n) + n"
      by (simp add: unf algebra_simps)
    finally show ?thesis .
  next
    case False
    then have unf: "string_of_nat n = [digit_char n]"
      by (subst string_of_nat_unfold) simp
    from False have "digit_of (digit_char n) = Some n"
      by (intro digit_of_digit_char) simp
    then show ?thesis by (simp add: unf mult.commute)
  qed
qed

lemma parseInt_string_of_nat: "parseInt (string_of_nat n) = Some (int n)"
proof -
  obtain c cs where cs: "string_of_nat n = c # cs"
    using string_of_nat_nonempty [of n] by (cases "string_of_nat n") auto
  with string_of_nat_digits [of n] have c: "c \<in> set ''0123456789''" by auto
  then have "\<not> is_space c" "c \<noteq> CHR ''-''" "c \<noteq> CHR ''+''"
    by (auto simp: is_space_def)
  moreover have "read_digits 0 False (string_of_nat n) = Some n"
    using read_digits_string_of_nat [of 0 False n "[]"] by simp
  ultimately show ?thesis
    by (simp add: parseInt_def cs)
qed

lemma split_absent: "c \<notin> set str \<Longrightarrow> split c str = [str]"
  by (induction str) auto

text \<open>A suffix range \<open>-n\<close>: dropped when \<open>n\<close> is zero or exceeds the size.\<close>

lemma parse_piece_suffix:
  "parse_piece sz (CHR ''-'' # string_of_nat n) =
     (if 0 < n \<and> int n \<le> sz then Some \<lparr> r_start = sz - int n, r_end = sz - 1 \<rparr> else None)"
proof -
  have "CHR ''-'' \<notin> set (string_of_nat n)"
    using string_of_nat_digits [of n] by auto
  then have "split CHR ''-'' (CHR ''-'' # string_of_nat n) = [[], string_of_nat n]"
    by (simp add: split_absent)
  moreover have "parseInt [] = None"
    by (simp add: parseInt_def)
  ultimately show ?thesis
    by (auto simp: parse_piece_def parseInt_opt_def parseInt_string_of_nat)
qed

lemma combineRanges_single: "combineRanges [r] = [r]"
  by (simp add: combineRanges_def mapWithIndex_def mapWithoutIndex_def)

lemma rangeParser_suffix:
  "rangeParser sz (''bytes=-'' @ string_of_nat n) combine =
     (if 0 < n \<and> int n \<le> sz then Ranges ''bytes'' [\<lparr> r_start = sz - int n, r_end = sz - 1 \<rparr>]
      else Unsatisfiable)"
proof -
  have "CHR '','' \<notin> set (CHR ''-'' # string_of_nat n)"
    using string_of_nat_digits [of n] by auto
  then have "split CHR '','' (CHR ''-'' # string_of_nat n) = [CHR ''-'' # string_of_nat n]"
    by (rule split_absent)
  then show ?thesis
    by (simp add: rangeParser_def List.map_filter_def parse_piece_suffix combineRanges_single Let_def)
qed

section \<open>The ranges that the parser returns lie within the size\<close>

lemma parse_piece_bounds:
  assumes "parse_piece sz piece = Some r"
  shows "in_bounds sz r"
  using assms
  by (auto simp: parse_piece_def in_bounds_def Let_def split: option.splits if_splits)

lemma combine_loop_bounds:
  assumes "\<forall>r \<in> set kept. in_bounds sz r" and "in_bounds sz current"
    and "\<forall>r \<in> set rest. in_bounds sz r"
  shows "\<forall>r \<in> set (combine_loop kept current rest). in_bounds sz r"
  using assms
proof (induction rest arbitrary: kept current)
  case Nil
  then show ?case by simp
next
  case (Cons rng rest)
  from Cons.prems have rng: "in_bounds sz rng" and rest: "\<forall>r \<in> set rest. in_bounds sz r"
    by simp_all
  consider (next_range) "r_start rng > r_end current + 1"
    | (extend) "\<not> r_start rng > r_end current + 1" "r_end rng > r_end current"
    | (skip) "\<not> r_start rng > r_end current + 1" "\<not> r_end rng > r_end current"
    by blast
  then show ?case
  proof cases
    case next_range
    have "\<forall>r \<in> set (combine_loop (kept @ [current]) rng rest). in_bounds sz r"
      using Cons.prems(1,2) rng rest by (intro Cons.IH) auto
    with next_range show ?thesis by simp
  next
    case extend
    let ?cur = "current\<lparr> r_end := r_end rng, r_index := min (r_index current) (r_index rng) \<rparr>"
    have "in_bounds sz ?cur"
      using Cons.prems(2) rng extend by (simp add: in_bounds_def)
    then have "\<forall>r \<in> set (combine_loop kept ?cur rest). in_bounds sz r"
      using Cons.prems(1) rest by (intro Cons.IH) auto
    with extend show ?thesis by simp
  next
    case skip
    have "\<forall>r \<in> set (combine_loop kept current rest). in_bounds sz r"
      using Cons.prems(1,2) rest by (intro Cons.IH) auto
    with skip show ?thesis by simp
  qed
qed

lemma combineRanges_bounds:
  assumes "\<forall>r \<in> set rs. in_bounds sz r"
  shows "\<forall>r \<in> set (combineRanges rs). in_bounds sz r"
proof -
  let ?ordered = "sort_key r_start (map (\<lambda>(r, i). mapWithIndex r i) (zip rs [0 ..< length rs]))"
  have ordered: "\<forall>r \<in> set ?ordered. in_bounds sz r"
    using assms by (auto simp: mapWithIndex_def in_bounds_def dest: set_zip_leftD)
  show ?thesis
  proof (cases ?ordered)
    case Nil
    then show ?thesis by (simp add: combineRanges_def)
  next
    case (Cons first rest)
    with ordered have "in_bounds sz first" and "\<forall>r \<in> set rest. in_bounds sz r"
      by (metis list.set_intros(1), metis list.set_intros(2))
    then have "\<forall>r \<in> set (combine_loop [] first rest). in_bounds sz r"
      by (intro combine_loop_bounds) simp_all
    then have "\<forall>r \<in> set (map mapWithoutIndex (sort_key r_index (combine_loop [] first rest))). in_bounds sz r"
      by (auto simp: mapWithoutIndex_def in_bounds_def)
    with Cons show ?thesis by (simp add: combineRanges_def)
  qed
qed

lemma rangeParser_bounds:
  assumes "rangeParser sz str combine = Ranges t rs"
  shows "\<forall>r \<in> set rs. in_bounds sz r"
proof -
  have parsed: "\<forall>r \<in> set (List.map_filter (parse_piece sz) arr). in_bounds sz r" for arr
    by (auto simp: List.map_filter_def dest: parse_piece_bounds)
  from combineRanges_bounds [OF parsed]
  have combined: "\<forall>r \<in> set (combineRanges (List.map_filter (parse_piece sz) arr)). in_bounds sz r" for arr .
  from assms obtain arr where
    "rs = combineRanges (List.map_filter (parse_piece sz) arr) \<or> rs = List.map_filter (parse_piece sz) arr"
    by (auto simp: rangeParser_def Let_def split: option.splits if_splits)
  with parsed combined show ?thesis by blast
qed

text \<open>
  C4 (as amended). For a request with a non-empty \<open>If-Match\<close> header, on a response whose
  headers are not sent, \<open>send\<close> checks the header against the \<open>ETag\<close> of the response as
  it is once the header fields are set. With no \<open>ETag\<close>, or an empty one, the
  precondition fails, also for \<open>*\<close>. With a non-empty \<open>ETag\<close>, \<open>*\<close> passes, and any other
  header value fails exactly when no token of its token list matches, where a token
  matches when it is the tag, is \<open>W/\<close> followed by the tag, or gives the tag when \<open>W/\<close>
  is put before it. When the precondition fails \<open>send\<close> calls \<open>error(412)\<close>, which with no
  error listener ends the response with status 412; when it passes \<open>send\<close> goes on to the
  freshness check and the range support.
\<close>

theorem if_match_precondition:
  assumes "req_headers (ss_req s) ''if-match'' = Some m" and "m \<noteq> []" and "\<not> headersSent res"
  shows "(res_getHeader (prepared e s res path st) ''ETag'' = None \<or>
          res_getHeader (prepared e s res path st) ''ETag'' = Some (Str []) \<longrightarrow>
            isPreconditionFailure e s (prepared e s res path st)) \<and>
         (\<forall>t. res_getHeader (prepared e s res path st) ''ETag'' = Some (Str t) \<and> t \<noteq> [] \<longrightarrow>
            (m = ''*'' \<longrightarrow> \<not> isPreconditionFailure e s (prepared e s res path st)) \<and>
            (m \<noteq> ''*'' \<longrightarrow>
               (isPreconditionFailure e s (prepared e s res path st) \<longleftrightarrow>
                  \<not> (\<exists>tok \<in> set (parseTokenList m). tok = t \<or> tok = ''W/'' @ t \<or> ''W/'' @ tok = t)))) \<and>
         (isPreconditionFailure e s (prepared e s res path st) \<longrightarrow>
            send e s res path st = error e s (prepared e s res path st) 412 None \<and>
            (\<not> ss_error_listener s \<and> (\<exists>msg. STATUS_CODES e 412 = Some msg \<and> msg \<noteq> []) \<longrightarrow>
               (\<exists>res'. send e s res path st = Responded res' \<and> statusCode res' = 412))) \<and>
         (\<not> isPreconditionFailure e s (prepared e s res path st) \<longrightarrow>
            send_plan e s res path st =
              (if isCachable (prepared e s res path st) \<and> isFresh e s (prepared e s res path st)
               then Finished (notModified (prepared e s res path st))
               else send_ranges e s (prepared e s res path st) (send_offset s) (effective_len s st)))"
proof -
  let ?r1 = "prepared e s res path st"
  have cond: "isConditionalGET s"
    using assms(1,2) by (simp add: isConditionalGET_def present_def)
  have absent: "res_getHeader ?r1 ''ETag'' = None \<or> res_getHeader ?r1 ''ETag'' = Some (Str []) \<longrightarrow>
                  isPreconditionFailure e s ?r1"
    using assms(1,2) by (auto simp: isPreconditionFailure_def Let_def truthy_def)
  have tagged: "\<forall>t. res_getHeader ?r1 ''ETag'' = Some (Str t) \<and> t \<noteq> [] \<longrightarrow>
            (m = ''*'' \<longrightarrow> \<not> isPreconditionFailure e s ?r1) \<and>
            (m \<noteq> ''*'' \<longrightarrow>
               (isPreconditionFailure e s ?r1 \<longleftrightarrow>
                  \<not> (\<exists>tok \<in> set (parseTokenList m). tok = t \<or> tok = ''W/'' @ t \<or> ''W/'' @ tok = t)))"
    using assms(1,2)
    by (auto simp: isPreconditionFailure_def Let_def truthy_def js_String_def list_all_iff)
  have fails: "send e s res path st = error e s ?r1 412 None" if "isPreconditionFailure e s ?r1"
    using that cond assms(3) by (simp add: send_def send_plan_def prepared_def Let_def)
  have replied: "\<exists>res'. send e s res path st = Responded res' \<and> statusCode res' = 412"
    if "isPreconditionFailure e s ?r1" and "\<not> ss_error_listener s"
      and "STATUS_CODES e 412 = Some msg" and "msg \<noteq> []" for msg
    using error_responds [OF that(2-4), of ?r1 None] fails [OF that(1)] by auto
  have passes: "send_plan e s res path st =
              (if isCachable ?r1 \<and> isFresh e s ?r1 then Finished (notModified ?r1)
               else send_ranges e s ?r1 (send_offset s) (effective_len s st))"
    if "\<not> isPreconditionFailure e s ?r1"
    using that cond assms(3)
    by (simp add: send_plan_def prepared_def send_offset_def effective_len_def Let_def)
  from absent tagged fails replied passes show ?thesis by blast
qed

theorem if_match_precondition_witness:
  "(\<exists>res'. send example_env (example_stream ''GET'' [''if-match'' \<mapsto> ''x, y''] ''/a.txt'' srv_options)
             new_response ''/srv/a.txt'' stat_a_txt = Responded res' \<and> statusCode res' = 412) \<and>
   \<not> isPreconditionFailure example_env
       (example_stream ''GET'' [''if-match'' \<mapsto> ''x, '' @ tag_a_txt] ''/a.txt'' srv_options)
       (prepared example_env
          (example_stream ''GET'' [''if-match'' \<mapsto> ''x, '' @ tag_a_txt] ''/a.txt'' srv_options)
          new_response ''/srv/a.txt'' stat_a_txt) \<and>
   \<not> isPreconditionFailure example_env
       (example_stream ''GET'' [''if-match'' \<mapsto> ''*''] ''/a.txt'' srv_options)
       (prepared example_env
          (example_stream ''GET'' [''if-match'' \<mapsto> ''*''] ''/a.txt'' srv_options)
          new_response ''/srv/a.txt'' stat_a_txt) \<and>
   (\<exists>res'. send example_env
             (example_stream ''GET'' [''if-match'' \<mapsto> ''*''] ''/a.txt'' (srv_options\<lparr> opt_etag := Some False \<rparr>))
             new_response ''/srv/a.txt'' stat_a_txt = Responded res' \<and> statusCode res' = 412)"
proof -
  let ?s = "\<lambda>m. example_stream ''GET'' [''if-match'' \<mapsto> m] ''/a.txt'' srv_options"
  let ?u = "example_stream ''GET'' [''if-match'' \<mapsto> ''*''] ''/a.txt'' (srv_options\<lparr> opt_etag := Some False \<rparr>)"
  let ?prep = "\<lambda>s. prepared example_env s new_response ''/srv/a.txt'' stat_a_txt"
  have hdr: "req_headers (ss_req (?s m)) ''if-match'' = Some m" for m
    by (simp add: example_stream_srv)
  have hdr_u: "req_headers (ss_req ?u) ''if-match'' = Some ''*''"
    by code_simp
  have fresh: "\<not> headersSent new_response"
    by (simp add: new_response_def)
  have quiet: "\<not> ss_error_listener (?s m)" for m
    by (simp add: example_stream_srv)
  have quiet_u: "\<not> ss_error_listener ?u"
    by code_simp
  have known: "\<exists>msg. STATUS_CODES example_env 412 = Some msg \<and> msg \<noteq> []"
    by (simp add: node_STATUS_CODES_def)
  have nonempty: "tag_a_txt \<noteq> []"
    by (simp add: tag_a_txt_def)
  have tag: "res_getHeader (?prep (?s m)) ''ETag'' = Some (Str tag_a_txt)" for m
  proof -
    have "etag example_env stat_a_txt = tag_a_txt" by code_simp
    then show ?thesis
      by (simp add: prepared_def type_def setHeader_def example_stream_srv new_response_def
            res_setHeader_def res_getHeader_def truthy_def)
  qed
  have no_tag: "res_getHeader (?prep ?u) ''ETag'' = None"
    by code_simp
  have differs: "''x, y'' \<noteq> ''*''" "''x, '' @ tag_a_txt \<noteq> ''*''"
    by simp_all
  have none_matches: "\<not> (\<exists>tok \<in> set (parseTokenList ''x, y'').
                          tok = tag_a_txt \<or> tok = ''W/'' @ tag_a_txt \<or> ''W/'' @ tok = tag_a_txt)"
    by code_simp
  have one_matches: "\<exists>tok \<in> set (parseTokenList (''x, '' @ tag_a_txt)).
                        tok = tag_a_txt \<or> tok = ''W/'' @ tag_a_txt \<or> ''W/'' @ tok = tag_a_txt"
    by code_simp
  note a = if_match_precondition [OF hdr _ fresh, of "''x, y''" example_env "''/srv/a.txt''" stat_a_txt]
  note b = if_match_precondition [OF hdr _ fresh, of "''x, '' @ tag_a_txt" example_env "''/srv/a.txt''" stat_a_txt]
  note c = if_match_precondition [OF hdr _ fresh, of "''*''" example_env "''/srv/a.txt''" stat_a_txt]
  note d = if_match_precondition [OF hdr_u _ fresh, of example_env "''/srv/a.txt''" stat_a_txt]
  from a tag [of "''x, y''"] nonempty differs(1) none_matches
  have "isPreconditionFailure example_env (?s ''x, y'') (?prep (?s ''x, y''))"
    by blast
  with a quiet [of "''x, y''"] known
  have first: "\<exists>res'. send example_env (?s ''x, y'') new_response ''/srv/a.txt'' stat_a_txt = Responded res' \<and>
                      statusCode res' = 412"
    by blast
  from b tag [of "''x, '' @ tag_a_txt"] nonempty differs(2) one_matches
  have second: "\<not> isPreconditionFailure example_env (?s (''x, '' @ tag_a_txt)) (?prep (?s (''x, '' @ tag_a_txt)))"
    by blast
  from c tag [of "''*''"] nonempty
  have third: "\<not> isPreconditionFailure example_env (?s ''*'') (?prep (?s ''*''))"
    by blast
  from d no_tag have "isPreconditionFailure example_env ?u (?prep ?u)"
    by blast
  with d quiet_u known
  have fourth: "\<exists>res'. send example_env ?u new_response ''/srv/a.txt'' stat_a_txt = Responded res' \<and>
                       statusCode res' = 412"
    by blast
  from first second third fourth show ?thesis by blast
qed

text \<open>With the weak tag \<open>W/"a"\<close> on the response and \<open>If-Match: "a"\<close>, the token is
  neither the tag nor \<open>W/\<close> followed by the tag, and the precondition passes.\<close>

theorem if_match_weak_tag_counterexample:
  "\<not> isPreconditionFailure example_env
       (example_stream ''GET'' [''if-match'' \<mapsto> [CHR 0x22, CHR ''a'', CHR 0x22]] ''/a.txt'' no_options)
       (res_setHeader new_response ''ETag'' (Str (''W/'' @ [CHR 0x22, CHR ''a'', CHR 0x22]))) \<and>
   \<not> (\<exists>tok \<in> set (parseTokenList [CHR 0x22, CHR ''a'', CHR 0x22]).
         tok = ''W/'' @ [CHR 0x22, CHR ''a'', CHR 0x22] \<or>
         tok = ''W/'' @ ''W/'' @ [CHR 0x22, CHR ''a'', CHR 0x22])"
  by (simp add: isPreconditionFailure_def example_stream_def SendStream_def no_options_def
        getHeader_setHeader truthy_def js_String_def parseTokenList_def substring_def)

section \<open>The window that \<open>send\<close> reads\<close>

lemma send_plan_transfer:
  assumes "send_plan e s res path st = Transfer res' opts"
  shows "send_ranges e s (prepared e s res path st) (send_offset s) (effective_len s st) = Transfer res' opts"
  using assms
  by (simp add: send_plan_def prepared_def send_offset_def effective_len_def Let_def split: if_splits)

lemma send_transfer_result:
  assumes "send_transfer r offset len = Transfer res' opts"
  shows "ro_start opts = offset \<and> ro_end opts = max offset (offset + len - 1) \<and>
         res_getHeader res' ''Content-Length'' = Some (Num len) \<and> statusCode res' = statusCode r"
  using assms by (auto simp: send_transfer_def getHeader_setHeader)

lemma send_ranges_transfer:
  assumes "send_ranges e s r1 offset len = Transfer res' opts"
  shows "(\<exists>str t r. req_headers (ss_req s) ''range'' = Some str \<and> ss_acceptRanges s \<and>
            BYTES_RANGE_REGEXP_test (Some str) \<and> isRangeFresh e s r1 \<and>
            rangeParser len str True = Ranges t [r] \<and>
            send_transfer (res_setHeader (r1\<lparr> statusCode := 206 \<rparr>) ''Content-Range''
                             (Str (contentRange ''bytes'' len (Some r))))
              (offset + r_start r) (r_end r - r_start r + 1) = Transfer res' opts) \<or>
         send_transfer r1 offset len = Transfer res' opts"
proof (cases "ss_acceptRanges s \<and> BYTES_RANGE_REGEXP_test (req_headers (ss_req s) ''range'')")
  case False
  with assms show ?thesis by (auto simp: send_ranges_def Let_def)
next
  case True
  then obtain str where str: "req_headers (ss_req s) ''range'' = Some str"
    by (cases "req_headers (ss_req s) ''range''") (auto simp: BYTES_RANGE_REGEXP_test_def)
  let ?parsed = "if \<not> isRangeFresh e s r1 then Malformed else rangeParser len str True"
  show ?thesis
  proof (cases ?parsed)
    case Malformed
    with assms True str show ?thesis by (simp add: send_ranges_def Let_def)
  next
    case Unsatisfiable
    with assms True str show ?thesis by (simp add: send_ranges_def Let_def)
  next
    case (Ranges t rs)
    then have fresh: "isRangeFresh e s r1" and parsed: "rangeParser len str True = Ranges t rs"
      by (auto split: if_splits)
    show ?thesis
    proof (cases rs)
      case Nil
      with assms True str Ranges show ?thesis by (simp add: send_ranges_def Let_def)
    next
      case (Cons x xs)
      show ?thesis
      proof (cases xs)
        case Nil
        with assms True str Ranges Cons
        have "send_transfer (res_setHeader (r1\<lparr> statusCode := 206 \<rparr>) ''Content-Range''
                               (Str (contentRange ''bytes'' len (Some x))))
                (offset + r_start x) (r_end x - r_start x + 1) = Transfer res' opts"
          by (simp add: send_ranges_def Let_def)
        with True str fresh parsed Cons Nil show ?thesis by auto
      next
        case (Cons y ys)
        with assms True str Ranges \<open>rs = x # xs\<close> show ?thesis by (simp add: send_ranges_def Let_def)
      qed
    qed
  qed
qed

text \<open>
  C10. Let \<open>offset\<close> be the \<open>start\<close> option (0 when omitted) and \<open>len\<close> the effective
  length, \<open>max(0, size - offset)\<close> cut down to \<open>end - offset + 1\<close> when the \<open>end\<close> option
  is set. Whenever \<open>send\<close> goes on to transfer the file (for any method but \<open>HEAD\<close> it
  hands the response and the read options to \<open>stream\<close>), the read options satisfy
  \<open>start \<le> end\<close>, and they are one of two: for a single fresh range \<open>[a, b]\<close> parsed
  against \<open>len\<close>, the window \<open>[offset + a, offset + b]\<close> with \<open>Content-Length\<close>
  \<open>b - a + 1\<close> and status 206; otherwise the window
  \<open>[offset, max(offset, offset + len - 1)]\<close> with \<open>Content-Length\<close> \<open>len\<close> and the status
  unchanged. For \<open>len = 0\<close> the window is \<open>[offset, offset]\<close> and \<open>Content-Length\<close>
  is \<open>0\<close>.
\<close>

theorem send_read_options:
  assumes "send_plan e s res path st = Transfer res' opts"
  shows "send_offset s = (case opt_start (ss_options s) of Some v \<Rightarrow> v | None \<Rightarrow> 0) \<and>
         effective_len s st =
           (case opt_end (ss_options s) of
              None \<Rightarrow> max 0 (st_size st - send_offset s)
            | Some fin \<Rightarrow> min (max 0 (st_size st - send_offset s)) (fin - send_offset s + 1)) \<and>
         ro_start opts \<le> ro_end opts \<and>
         ((\<exists>str t r. req_headers (ss_req s) ''range'' = Some str \<and> ss_acceptRanges s \<and>
              BYTES_RANGE_REGEXP_test (Some str) \<and> isRangeFresh e s (prepared e s res path st) \<and>
              rangeParser (effective_len s st) str True = Ranges t [r] \<and>
              ro_start opts = send_offset s + r_start r \<and>
              ro_end opts = send_offset s + r_end r \<and>
              res_getHeader res' ''Content-Length'' = Some (Num (r_end r - r_start r + 1)) \<and>
              statusCode res' = 206) \<or>
          (ro_start opts = send_offset s \<and>
           ro_end opts = max (send_offset s) (send_offset s + effective_len s st - 1) \<and>
           res_getHeader res' ''Content-Length'' = Some (Num (effective_len s st)) \<and>
           statusCode res' = statusCode (prepared e s res path st))) \<and>
         (effective_len s st = 0 \<longrightarrow>
            ro_start opts = send_offset s \<and> ro_end opts = send_offset s \<and>
            res_getHeader res' ''Content-Length'' = Some (Num 0)) \<and>
         (req_method (ss_req s) \<noteq> ''HEAD'' \<longrightarrow> send e s res path st = stream e s res' path opts)"
proof -
  let ?r1 = "prepared e s res path st"
  let ?off = "send_offset s"
  let ?len = "effective_len s st"
  let ?ranged = "\<exists>str t r. req_headers (ss_req s) ''range'' = Some str \<and> ss_acceptRanges s \<and>
              BYTES_RANGE_REGEXP_test (Some str) \<and> isRangeFresh e s ?r1 \<and>
              rangeParser ?len str True = Ranges t [r] \<and>
              ro_start opts = ?off + r_start r \<and> ro_end opts = ?off + r_end r \<and>
              res_getHeader res' ''Content-Length'' = Some (Num (r_end r - r_start r + 1)) \<and>
              statusCode res' = 206"
  let ?plain = "ro_start opts = ?off \<and> ro_end opts = max ?off (?off + ?len - 1) \<and>
           res_getHeader res' ''Content-Length'' = Some (Num ?len) \<and>
           statusCode res' = statusCode ?r1"
  have off: "?off = (case opt_start (ss_options s) of Some v \<Rightarrow> v | None \<Rightarrow> 0)"
    by (simp add: send_offset_def)
  have len: "?len = (case opt_end (ss_options s) of
                       None \<Rightarrow> max 0 (st_size st - ?off)
                     | Some fin \<Rightarrow> min (max 0 (st_size st - ?off)) (fin - ?off + 1))"
    by (auto simp: effective_len_def window_len_def Let_def split: option.splits)
  have handed: "req_method (ss_req s) \<noteq> ''HEAD'' \<longrightarrow> send e s res path st = stream e s res' path opts"
    using assms by (simp add: send_def)
  have ranged_window: "ro_start opts = ?off + r_start r \<and> ro_end opts = ?off + r_end r \<and>
      res_getHeader res' ''Content-Length'' = Some (Num (r_end r - r_start r + 1)) \<and>
      statusCode res' = 206 \<and> 0 < ?len"
    if parsed: "rangeParser ?len str True = Ranges t [r]"
      and tr: "send_transfer (res_setHeader (?r1\<lparr> statusCode := 206 \<rparr>) ''Content-Range''
                             (Str (contentRange ''bytes'' ?len (Some r))))
              (?off + r_start r) (r_end r - r_start r + 1) = Transfer res' opts" for str t r
  proof -
    from rangeParser_bounds [OF parsed] have "in_bounds ?len r" by simp
    then have "0 \<le> r_start r" "r_start r \<le> r_end r" "r_end r < ?len"
      by (simp_all add: in_bounds_def)
    with send_transfer_result [OF tr] show ?thesis by auto
  qed
  from send_ranges_transfer [OF send_plan_transfer [OF assms]]
  consider (ranged) str t r where "req_headers (ss_req s) ''range'' = Some str" "ss_acceptRanges s"
      "BYTES_RANGE_REGEXP_test (Some str)" "isRangeFresh e s ?r1"
      "rangeParser ?len str True = Ranges t [r]"
      "send_transfer (res_setHeader (?r1\<lparr> statusCode := 206 \<rparr>) ''Content-Range''
                       (Str (contentRange ''bytes'' ?len (Some r))))
         (?off + r_start r) (r_end r - r_start r + 1) = Transfer res' opts"
    | (plain) "send_transfer ?r1 ?off ?len = Transfer res' opts"
    by blast
  then have branches: "(?ranged \<and> 0 < ?len) \<or> ?plain"
  proof cases
    case ranged
    from ranged_window [OF ranged(5,6)] ranged(1-5) have "?ranged \<and> 0 < ?len" by blast
    then show ?thesis ..
  next
    case plain
    from send_transfer_result [OF plain] have ?plain by simp
    then show ?thesis ..
  qed
  have ordered: "ro_start opts \<le> ro_end opts"
  proof -
    have "?ranged \<Longrightarrow> ro_start opts \<le> ro_end opts"
    proof -
      assume ?ranged
      then obtain str t r where parsed: "rangeParser ?len str True = Ranges t [r]"
        and w: "ro_start opts = ?off + r_start r" "ro_end opts = ?off + r_end r"
        by blast
      from rangeParser_bounds [OF parsed] have "r_start r \<le> r_end r"
        by (simp add: in_bounds_def)
      with w show ?thesis by simp
    qed
    with branches show ?thesis by auto
  qed
  have empty: "?len = 0 \<longrightarrow> ro_start opts = ?off \<and> ro_end opts = ?off \<and>
                 res_getHeader res' ''Content-Length'' = Some (Num 0)"
    using branches by auto
  from branches have "?ranged \<or> ?plain" by blast
  with off len ordered empty handed show ?thesis by blast
qed
lemma statusCode_prepared:
  assumes "ss_headers_listener s = None"
  shows "statusCode (prepared e s r path st) = statusCode r"
  using assms by (simp add: prepared_def type_def setHeader_def Let_def split: option.splits)

theorem send_read_options_witness:
  "(\<exists>res' opts.
      send_plan example_env (example_stream ''GET'' Map.empty ''/empty'' srv_options)
        new_response ''/srv/empty'' stat_empty = Transfer res' opts \<and>
      ro_start opts = 0 \<and> ro_end opts = 0 \<and>
      res_getHeader res' ''Content-Length'' = Some (Num 0) \<and>
      send example_env (example_stream ''GET'' Map.empty ''/empty'' srv_options)
        new_response ''/srv/empty'' stat_empty =
      stream example_env (example_stream ''GET'' Map.empty ''/empty'' srv_options)
        res' ''/srv/empty'' opts) \<and>
   (\<exists>res' opts.
      send_plan example_env
        (example_stream ''GET'' [''range'' \<mapsto> ''bytes=1-3''] ''/a.txt'' (srv_options\<lparr> opt_start := Some 2 \<rparr>))
        new_response ''/srv/a.txt'' stat_a_txt = Transfer res' opts \<and>
      ro_start opts = 3 \<and> ro_end opts = 5 \<and>
      res_getHeader res' ''Content-Length'' = Some (Num 3))"
proof -
  let ?s0 = "example_stream ''GET'' Map.empty ''/empty'' srv_options"
  let ?s1 = "example_stream ''GET'' [''range'' \<mapsto> ''bytes=1-3''] ''/a.txt'' (srv_options\<lparr> opt_start := Some 2 \<rparr>)"
  have "case send_plan example_env ?s0 new_response ''/srv/empty'' stat_empty of
          Transfer r opts \<Rightarrow> True | Finished out \<Rightarrow> False"
    by code_simp
  then obtain r0 o0 where plan0: "send_plan example_env ?s0 new_response ''/srv/empty'' stat_empty = Transfer r0 o0"
    by (auto split: send_plan.splits)
  have len0: "effective_len ?s0 stat_empty = 0" by code_simp
  have off0: "send_offset ?s0 = 0" by code_simp
  have meth0: "req_method (ss_req ?s0) \<noteq> ''HEAD''" by code_simp
  from send_read_options [OF plan0]
  have "(effective_len ?s0 stat_empty = 0 \<longrightarrow>
            ro_start o0 = send_offset ?s0 \<and> ro_end o0 = send_offset ?s0 \<and>
            res_getHeader r0 ''Content-Length'' = Some (Num 0)) \<and>
        (req_method (ss_req ?s0) \<noteq> ''HEAD'' \<longrightarrow>
            send example_env ?s0 new_response ''/srv/empty'' stat_empty =
            stream example_env ?s0 r0 ''/srv/empty'' o0)"
    by blast
  with len0 off0 meth0
  have first: "ro_start o0 = 0 \<and> ro_end o0 = 0 \<and> res_getHeader r0 ''Content-Length'' = Some (Num 0) \<and>
               send example_env ?s0 new_response ''/srv/empty'' stat_empty =
               stream example_env ?s0 r0 ''/srv/empty'' o0"
    by simp
  have "case send_plan example_env ?s1 new_response ''/srv/a.txt'' stat_a_txt of
          Transfer r opts \<Rightarrow> statusCode r = 206 | Finished out \<Rightarrow> False"
    by code_simp
  then obtain r1 o1 where plan1: "send_plan example_env ?s1 new_response ''/srv/a.txt'' stat_a_txt = Transfer r1 o1"
    and status1: "statusCode r1 = 206"
    by (auto split: send_plan.splits)
  have len1: "effective_len ?s1 stat_a_txt = 4" by code_simp
  have off1: "send_offset ?s1 = 2" by code_simp
  have hdr1: "req_headers (ss_req ?s1) ''range'' = Some ''bytes=1-3''" by code_simp
  have parse1: "rangeParser 4 ''bytes=1-3'' True = Ranges ''bytes'' [\<lparr> r_start = 1, r_end = 3 \<rparr>]"
    by code_simp
  have listener1: "ss_headers_listener ?s1 = None"
    by (simp add: example_stream_def SendStream_def srv_options_def no_options_def)
  have prep1: "statusCode (prepared example_env ?s1 new_response ''/srv/a.txt'' stat_a_txt) = 200"
    by (simp add: statusCode_prepared [OF listener1] new_response_def)
  from send_read_options [OF plan1]
  have "(\<exists>str t r. req_headers (ss_req ?s1) ''range'' = Some str \<and>
            rangeParser (effective_len ?s1 stat_a_txt) str True = Ranges t [r] \<and>
            ro_start o1 = send_offset ?s1 + r_start r \<and> ro_end o1 = send_offset ?s1 + r_end r \<and>
            res_getHeader r1 ''Content-Length'' = Some (Num (r_end r - r_start r + 1))) \<or>
        statusCode r1 = statusCode (prepared example_env ?s1 new_response ''/srv/a.txt'' stat_a_txt)"
    by blast
  with status1 prep1
  obtain str t r where "req_headers (ss_req ?s1) ''range'' = Some str"
    and "rangeParser (effective_len ?s1 stat_a_txt) str True = Ranges t [r]"
    and w: "ro_start o1 = send_offset ?s1 + r_start r" "ro_end o1 = send_offset ?s1 + r_end r"
       "res_getHeader r1 ''Content-Length'' = Some (Num (r_end r - r_start r + 1))"
    by auto
  with hdr1 len1 parse1 have "r = \<lparr> r_start = 1, r_end = 3 \<rparr>" by simp
  with w off1 have second: "ro_start o1 = 3 \<and> ro_end o1 = 5 \<and> res_getHeader r1 ''Content-Length'' = Some (Num 3)"
    by simp
  from plan0 first plan1 second show ?thesis by blast
qed

text \<open>
  C5 (as amended). When \<open>send\<close> gets past the conditional-GET checks, ranges are
  accepted, the \<open>Range\<close> header is a bytes range that is fresh and that the parser finds
  unsatisfiable on the effective length, and no error listener is attached, the reply
  has status 416, \<open>Content-Range: bytes */len\<close> for the effective length \<open>len\<close>, and
  the HTML error document of the status message as its body.
\<close>

theorem unsatisfiable_range_reply:
  assumes "passes_conditions e s res path st"
    and "ss_acceptRanges s"
    and "req_headers (ss_req s) ''range'' = Some r"
    and "BYTES_RANGE_REGEXP_test (Some r)"
    and "isRangeFresh e s (prepared e s res path st)"
    and "rangeParser (effective_len s st) r True = Unsatisfiable"
    and "\<not> ss_error_listener s"
    and "STATUS_CODES e 416 = Some msg" and "msg \<noteq> []"
  shows "\<exists>res'. send e s res path st = Responded res' \<and> statusCode res' = 416 \<and>
           res_getHeader res' ''Content-Range'' =
             Some (Str (''bytes */'' @ string_of_int (effective_len s st))) \<and>
           res_body res' = Some (createHtmlDocument ''Error'' (escapeHtml e msg))"
  using assms by (rule send_416)

theorem unsatisfiable_range_reply_witness:
  "\<exists>res'. send example_env (example_stream ''GET'' [''range'' \<mapsto> ''bytes=10-''] ''/a.txt'' srv_options)
            new_response ''/srv/a.txt'' stat_a_txt = Responded res' \<and>
          statusCode res' = 416 \<and>
          res_getHeader res' ''Content-Range'' = Some (Str ''bytes */6'') \<and>
          res_body res' = Some (createHtmlDocument ''Error'' ''Range Not Satisfiable'')"
proof -
  let ?s = "example_stream ''GET'' [''range'' \<mapsto> ''bytes=10-''] ''/a.txt'' srv_options"
  note s = example_stream_srv
  have len: "effective_len ?s stat_a_txt = 6"
    by (simp add: s effective_len_def send_offset_def window_len_def stat_a_txt_def)
  have 1: "passes_conditions example_env ?s new_response ''/srv/a.txt'' stat_a_txt"
    by (simp add: s passes_conditions_def new_response_def isConditionalGET_def present_def)
  have 2: "ss_acceptRanges ?s" by (simp add: s)
  have 3: "req_headers (ss_req ?s) ''range'' = Some ''bytes=10-''" by (simp add: s)
  have 4: "BYTES_RANGE_REGEXP_test (Some ''bytes=10-'')" by (simp add: BYTES_RANGE_REGEXP_test_def)
  have 5: "isRangeFresh example_env ?s (prepared example_env ?s new_response ''/srv/a.txt'' stat_a_txt)"
    by (simp add: s isRangeFresh_def)
  have 6: "rangeParser (effective_len ?s stat_a_txt) ''bytes=10-'' True = Unsatisfiable"
    unfolding len by code_simp
  have 7: "\<not> ss_error_listener ?s" by (simp add: s)
  have 8: "STATUS_CODES example_env 416 = Some ''Range Not Satisfiable''"
    by (simp add: node_STATUS_CODES_def)
  have 9: "escapeHtml example_env ''Range Not Satisfiable'' = ''Range Not Satisfiable''"
    by simp
  have 10: "string_of_int 6 = ''6''" by code_simp
  from unsatisfiable_range_reply [OF 1 2 3 4 5 6 7 8] show ?thesis
    by (simp add: len 9 10)
qed

text \<open>The body of the 416 reply is not empty.\<close>

theorem unsatisfiable_range_body_counterexample:
  "map_option statusCode (written (send example_env
       (example_stream ''GET'' [''range'' \<mapsto> ''bytes=10-''] ''/a.txt'' srv_options)
       new_response ''/srv/a.txt'' stat_a_txt)) = Some 416 \<and>
   map_option res_body (written (send example_env
       (example_stream ''GET'' [''range'' \<mapsto> ''bytes=10-''] ''/a.txt'' srv_options)
       new_response ''/srv/a.txt'' stat_a_txt)) \<noteq> Some (Some [])"
proof -
  let ?s = "example_stream ''GET'' [''range'' \<mapsto> ''bytes=10-''] ''/a.txt'' srv_options"
  note s = example_stream_srv
  have len: "effective_len ?s stat_a_txt = 6"
    by (simp add: s effective_len_def send_offset_def window_len_def stat_a_txt_def)
  have 1: "passes_conditions example_env ?s new_response ''/srv/a.txt'' stat_a_txt"
    by (simp add: s passes_conditions_def new_response_def isConditionalGET_def present_def)
  have 4: "BYTES_RANGE_REGEXP_test (Some ''bytes=10-'')" by (simp add: BYTES_RANGE_REGEXP_test_def)
  have 5: "isRangeFresh example_env ?s (prepared example_env ?s new_response ''/srv/a.txt'' stat_a_txt)"
    by (simp add: s isRangeFresh_def)
  have 6: "rangeParser (effective_len ?s stat_a_txt) ''bytes=10-'' True = Unsatisfiable"
    unfolding len by code_simp
  have 8: "STATUS_CODES example_env 416 = Some ''Range Not Satisfiable''"
    by (simp add: node_STATUS_CODES_def)
  from send_416 [OF 1 _ _ 4 5 6 _ 8, simplified s]
  obtain res' where "send example_env ?s new_response ''/srv/a.txt'' stat_a_txt = Responded res'"
    and "statusCode res' = 416"
    and "res_body res' = Some (createHtmlDocument ''Error'' ''Range Not Satisfiable'')"
    by (auto simp: s)
  then show ?thesis by (simp add: written_def createHtmlDocument_def)
qed

lemma removeContentHeaderFields_headers:
  assumes "\<forall>k \<in> set (getHeaderNames res). toLowerCase k = k"
  shows "res_headers (removeContentHeaderFields res) =
           filter (\<lambda>(k, v). \<not> (take 8 k = ''content-'' \<and> k \<noteq> ''content-location'')) (res_headers res)"
proof -
  let ?P = "\<lambda>k. take 8 k = ''content-'' \<and> k \<noteq> ''content-location''"
  let ?step = "\<lambda>r header. if ?P header then res_removeHeader r header else r"
  have fold: "res_headers (foldl ?step r names) =
                filter (\<lambda>(k, v). \<not> (k \<in> set names \<and> ?P k)) (res_headers r)"
    if "\<forall>k \<in> set names. toLowerCase k = k" for r names
    using that
  proof (induction names arbitrary: r)
    case Nil
    then show ?case by simp
  next
    case (Cons h hs)
    then have h: "toLowerCase h = h" and hs: "\<forall>k \<in> set hs. toLowerCase k = k" by auto
    show ?case
      by (auto simp: Cons.IH [OF hs] res_removeHeader_def h AList.delete_eq intro!: filter_cong)
  qed
  have "filter (\<lambda>(k, v). \<not> (k \<in> set (getHeaderNames res) \<and> ?P k)) (res_headers res) =
        filter (\<lambda>(k, v). \<not> ?P k) (res_headers res)"
    by (rule filter_cong) (auto simp: getHeaderNames_def intro: rev_image_eqI)
  with fold [OF assms, of res] show ?thesis
    by (simp add: removeContentHeaderFields_def)
qed

lemma removeContentHeaderFields_other [simp]:
  "statusCode (removeContentHeaderFields res) = statusCode res"
  "headersSent (removeContentHeaderFields res) = headersSent res"
  "res_body (removeContentHeaderFields res) = res_body res"
proof -
  let ?step = "\<lambda>r header. if take 8 header = ''content-'' \<and> header \<noteq> ''content-location''
                            then res_removeHeader r header else r"
  have "statusCode (foldl ?step r names) = statusCode r \<and>
        headersSent (foldl ?step r names) = headersSent r \<and>
        res_body (foldl ?step r names) = res_body r" for r names
    by (induction names arbitrary: r) (auto simp: res_removeHeader_def)
  then show "statusCode (removeContentHeaderFields res) = statusCode res"
    "headersSent (removeContentHeaderFields res) = headersSent res"
    "res_body (removeContentHeaderFields res) = res_body res"
    by (simp_all add: removeContentHeaderFields_def)
qed

text \<open>
  C6. When the headers are not yet sent, the request is a conditional GET whose
  precondition checks pass, the status of the response is cacheable and the freshness
  check reports fresh, \<open>send\<close> ends the response with status 304 and an empty body; the
  headers of the reply are the headers the response had (under the lower-cased names
  Node stores), in their order, without those whose name starts with \<open>content-\<close> other
  than \<open>content-location\<close>.
\<close>

theorem not_modified_reply:
  assumes "\<not> headersSent res"
    and "isConditionalGET s"
    and "\<not> isPreconditionFailure e s (prepared e s res path st)"
    and "isCachable (prepared e s res path st)"
    and "isFresh e s (prepared e s res path st)"
    and "\<forall>k \<in> set (getHeaderNames (prepared e s res path st)). toLowerCase k = k"
  shows "\<exists>res'. send e s res path st = Responded res' \<and>
           statusCode res' = 304 \<and> res_body res' = Some [] \<and>
           res_headers res' =
             filter (\<lambda>(k, v). \<not> (take 8 k = ''content-'' \<and> k \<noteq> ''content-location''))
                    (res_headers (prepared e s res path st))"
  using assms
  by (simp add: send_def send_plan_def send_ranges_def prepared_def Let_def notModified_def res_end_def
        removeContentHeaderFields_headers)

theorem not_modified_reply_witness:
  "\<exists>res'. send example_env
            (example_stream ''GET'' [''if-none-match'' \<mapsto> tag_a_txt]
               ''/a.txt'' srv_options)
            (setHeaders new_response
               [(''Content-Type'', Str ''text/plain''), (''Content-Location'', Str ''/a''),
                (''X-Served-By'', Str ''me'')])
            ''/srv/a.txt'' stat_a_txt = Responded res' \<and>
          statusCode res' = 304 \<and> res_body res' = Some [] \<and>
          map fst (res_headers res') =
            [''content-location'', ''x-served-by'', ''accept-ranges'', ''cache-control'',
             ''last-modified'', ''etag'']"
proof -
  let ?s = "example_stream ''GET'' [''if-none-match'' \<mapsto> tag_a_txt] ''/a.txt'' srv_options"
  let ?res = "setHeaders new_response
               [(''Content-Type'', Str ''text/plain''), (''Content-Location'', Str ''/a''),
                (''X-Served-By'', Str ''me'')]"
  note s = example_stream_srv
  have tag: "etag example_env stat_a_txt = tag_a_txt"
    by code_simp
  have prep: "prepared example_env ?s ?res ''/srv/a.txt'' stat_a_txt =
          \<lparr> statusCode = 200,
            res_headers = [(''content-type'', Str ''text/plain''), (''content-location'', Str ''/a''),
                           (''x-served-by'', Str ''me''), (''accept-ranges'', Str ''bytes''),
                           (''cache-control'', Str (''public, max-age='' @ string_of_int 0)),
                           (''last-modified'', Str (toUTCString example_env (st_mtime stat_a_txt))),
                           (''etag'', Str tag_a_txt)],
            headersSent = False, res_body = None \<rparr>"
    by (simp add: prepared_def type_def setHeader_def s setHeaders_def new_response_def
          res_setHeader_def res_getHeader_def truthy_def tag)
  have 1: "\<not> headersSent ?res"
    by (simp add: setHeaders_def new_response_def res_setHeader_def)
  have nonempty: "tag_a_txt \<noteq> []"
    by (simp add: tag_a_txt_def)
  have 2: "isConditionalGET ?s"
    by (simp add: s isConditionalGET_def present_def nonempty)
  have 3: "\<not> isPreconditionFailure example_env ?s (prepared example_env ?s ?res ''/srv/a.txt'' stat_a_txt)"
    unfolding prep by (simp add: isPreconditionFailure_def s parseHttpDate_def)
  have 4: "isCachable (prepared example_env ?s ?res ''/srv/a.txt'' stat_a_txt)"
    unfolding prep by (simp add: isCachable_def)
  have 5: "isFresh example_env ?s (prepared example_env ?s ?res ''/srv/a.txt'' stat_a_txt)"
    unfolding prep by (simp add: isFresh_def s res_getHeader_def)
  have 6: "\<forall>k \<in> set (getHeaderNames (prepared example_env ?s ?res ''/srv/a.txt'' stat_a_txt)).
             toLowerCase k = k"
    unfolding prep by (simp add: getHeaderNames_def)
  from not_modified_reply [OF 1 2 3 4 5 6] show ?thesis
    unfolding prep by auto
qed

text \<open>
  C3 (as amended). A suffix range \<open>-nnn\<close> is not clamped to the file: for \<open>nnn\<close> greater
  than the size the parser drops it, so that \<open>bytes=-nnn\<close> alone is unsatisfiable, and
  for \<open>0 < nnn \<le> size\<close> it is the range \<open>[size - nnn, size - 1]\<close>. For a request with
  \<open>Range: bytes=-5\<close> on an effective length of 3 that gets past the conditional-GET
  checks (ranges accepted, range fresh, no error listener), the reply is 416 with
  \<open>Content-Range: bytes */3\<close>.
\<close>

theorem suffix_range_not_clamped:
  assumes "passes_conditions e s res path st"
    and "ss_acceptRanges s"
    and "req_headers (ss_req s) ''range'' = Some ''bytes=-5''"
    and "isRangeFresh e s (prepared e s res path st)"
    and "effective_len s st = 3"
    and "\<not> ss_error_listener s"
    and "STATUS_CODES e 416 = Some msg" and "msg \<noteq> []"
  shows "(\<forall>sz n. sz < int n \<longrightarrow> rangeParser sz (''bytes=-'' @ string_of_nat n) True = Unsatisfiable) \<and>
         (\<forall>sz n. 0 < n \<and> int n \<le> sz \<longrightarrow>
            rangeParser sz (''bytes=-'' @ string_of_nat n) True =
              Ranges ''bytes'' [\<lparr> r_start = sz - int n, r_end = sz - 1 \<rparr>]) \<and>
         rangeParser 3 ''bytes=-5'' True = Unsatisfiable \<and>
         (\<exists>res'. send e s res path st = Responded res' \<and> statusCode res' = 416 \<and>
                 res_getHeader res' ''Content-Range'' = Some (Str ''bytes */3''))"
proof -
  have five: "string_of_nat 5 = ''5''" by code_simp
  have three: "string_of_int 3 = ''3''" by code_simp
  have unsat: "rangeParser 3 ''bytes=-5'' True = Unsatisfiable"
    using rangeParser_suffix [of 3 5 True] by (simp add: five)
  have "BYTES_RANGE_REGEXP_test (Some ''bytes=-5'')"
    by (simp add: BYTES_RANGE_REGEXP_test_def)
  from send_416 [OF assms(1-3) this assms(4) _ assms(6-8)] unsat assms(5)
  have "\<exists>res'. send e s res path st = Responded res' \<and> statusCode res' = 416 \<and>
                 res_getHeader res' ''Content-Range'' = Some (Str ''bytes */3'')"
    by (auto simp: three)
  with unsat show ?thesis
    unfolding rangeParser_suffix by simp
qed

theorem suffix_range_not_clamped_witness:
  "rangeParser 3 ''bytes=-5'' True = Unsatisfiable \<and>
   rangeParser 10 ''bytes=-4'' True = Ranges ''bytes'' [\<lparr> r_start = 6, r_end = 9 \<rparr>] \<and>
   (\<exists>res'. send example_env (example_stream ''GET'' [''range'' \<mapsto> ''bytes=-5''] ''/abc'' srv_options)
             new_response ''/srv/abc'' stat_abc = Responded res' \<and>
           statusCode res' = 416 \<and>
           res_getHeader res' ''Content-Range'' = Some (Str ''bytes */3''))"
proof -
  let ?s = "example_stream ''GET'' [''range'' \<mapsto> ''bytes=-5''] ''/abc'' srv_options"
  note s = example_stream_srv
  have 1: "passes_conditions example_env ?s new_response ''/srv/abc'' stat_abc"
    by (simp add: s passes_conditions_def new_response_def isConditionalGET_def present_def)
  have 2: "ss_acceptRanges ?s" by (simp add: s)
  have 3: "req_headers (ss_req ?s) ''range'' = Some ''bytes=-5''" by (simp add: s)
  have 4: "isRangeFresh example_env ?s (prepared example_env ?s new_response ''/srv/abc'' stat_abc)"
    by (simp add: s isRangeFresh_def)
  have 5: "effective_len ?s stat_abc = 3"
    by (simp add: s effective_len_def send_offset_def window_len_def stat_abc_def)
  have 6: "\<not> ss_error_listener ?s" by (simp add: s)
  have 7: "STATUS_CODES example_env 416 = Some ''Range Not Satisfiable''"
    by (simp add: node_STATUS_CODES_def)
  have four: "string_of_nat 4 = ''4''" by code_simp
  note inst = suffix_range_not_clamped [OF 1 2 3 4 5 6 7]
  from inst have pos: "\<forall>sz n. 0 < n \<and> int n \<le> sz \<longrightarrow>
            rangeParser sz (''bytes=-'' @ string_of_nat n) True =
              Ranges ''bytes'' [\<lparr> r_start = sz - int n, r_end = sz - 1 \<rparr>]"
    by blast
  from inst have rest: "rangeParser 3 ''bytes=-5'' True = Unsatisfiable \<and>
      (\<exists>res'. send example_env ?s new_response ''/srv/abc'' stat_abc = Responded res' \<and>
         statusCode res' = 416 \<and> res_getHeader res' ''Content-Range'' = Some (Str ''bytes */3''))"
    by blast
  from pos [rule_format, of 4 10]
  have "rangeParser 10 ''bytes=-4'' True = Ranges ''bytes'' [\<lparr> r_start = 6, r_end = 9 \<rparr>]"
    by (simp add: four)
  with rest show ?thesis by simp
qed

text \<open>For \<open>bytes=-5\<close> on 3 bytes the parser does not give the range \<open>[0, 2]\<close>, and the
  reply is not a 206.\<close>

theorem suffix_range_counterexample:
  "rangeParser 3 ''bytes=-5'' True \<noteq> Ranges ''bytes'' [\<lparr> r_start = 0, r_end = 2 \<rparr>] \<and>
   map_option statusCode (written (send example_env
       (example_stream ''GET'' [''range'' \<mapsto> ''bytes=-5''] ''/abc'' srv_options)
       new_response ''/srv/abc'' stat_abc)) = Some 416"
proof -
  let ?s = "example_stream ''GET'' [''range'' \<mapsto> ''bytes=-5''] ''/abc'' srv_options"
  note s = example_stream_srv
  have five: "string_of_nat 5 = ''5''" by code_simp
  have unsat: "rangeParser 3 ''bytes=-5'' True = Unsatisfiable"
    using rangeParser_suffix [of 3 5 True] by (simp add: five)
  have 1: "passes_conditions example_env ?s new_response ''/srv/abc'' stat_abc"
    by (simp add: s passes_conditions_def new_response_def isConditionalGET_def present_def)
  have 4: "BYTES_RANGE_REGEXP_test (Some ''bytes=-5'')" by (simp add: BYTES_RANGE_REGEXP_test_def)
  have 5: "isRangeFresh example_env ?s (prepared example_env ?s new_response ''/srv/abc'' stat_abc)"
    by (simp add: s isRangeFresh_def)
  have len: "effective_len ?s stat_abc = 3"
    by (simp add: s effective_len_def send_offset_def window_len_def stat_abc_def)
  have 8: "STATUS_CODES example_env 416 = Some ''Range Not Satisfiable''"
    by (simp add: node_STATUS_CODES_def)
  from send_416 [OF 1 _ _ 4 5 _ _ 8, simplified s] unsat len
  obtain res' where "send example_env ?s new_response ''/srv/abc'' stat_abc = Responded res'"
    and "statusCode res' = 416"
    by (auto simp: s)
  with unsat show ?thesis by (simp add: written_def)
qed

section \<open>Path checks\<close>

lemma components_nonempty: "components str \<noteq> []"
  by (cases str) (auto split: list.splits)

lemma hd_components_empty: "hd (components str) = [] \<longleftrightarrow> (str = [] \<or> is_slash (hd str))"
  by (cases str) (auto split: list.splits)

lemma dot_not_slash: "\<not> is_slash CHR ''.''"
  by (simp add: is_slash_def)

lemma up_here_components: "up_here str \<longleftrightarrow> hd (components str) = ''..''"
proof (cases str)
  case Nil
  then show ?thesis by simp
next
  case (Cons a as)
  note outer = this
  show ?thesis
  proof (cases as)
    case Nil
    with outer show ?thesis by auto
  next
    case (Cons b rest)
    have head: "hd (components (a # b # rest)) =
                  (if is_slash a then [] else if is_slash b then [a] else a # b # hd (components rest))"
      using components_nonempty [of rest] by (auto split: list.splits)
    have "up_here (a # b # rest) \<longleftrightarrow> a = CHR ''.'' \<and> b = CHR ''.'' \<and> (rest = [] \<or> is_slash (hd rest))"
      by (cases rest) auto
    also have "\<dots> \<longleftrightarrow> hd (components (a # b # rest)) = ''..''"
      unfolding head using dot_not_slash by (auto simp: hd_components_empty)
    finally show ?thesis by (simp add: outer Cons)
  qed
qed

lemma up_after_components: "up_after str \<longleftrightarrow> ''..'' \<in> set (tl (components str))"
proof (induction str)
  case Nil
  then show ?case by simp
next
  case (Cons c cs)
  show ?case
  proof (cases "is_slash c")
    case True
    have "''..'' \<in> set (components cs) \<longleftrightarrow>
            hd (components cs) = ''..'' \<or> ''..'' \<in> set (tl (components cs))"
      using components_nonempty [of cs] by (cases "components cs") auto
    with True Cons show ?thesis
      by (simp add: up_here_components)
  next
    case False
    with Cons show ?thesis
      using components_nonempty [of cs] by (auto split: list.splits)
  qed
qed

text \<open>The regular expression finds exactly the strings with a component \<open>..\<close>.\<close>

lemma UP_PATH_REGEXP_components: "UP_PATH_REGEXP_test str \<longleftrightarrow> ''..'' \<in> set (components str)"
proof -
  have "''..'' \<in> set (components str) \<longleftrightarrow>
          hd (components str) = ''..'' \<or> ''..'' \<in> set (tl (components str))"
    using components_nonempty [of str] by (cases "components str") auto
  then show ?thesis
    by (simp add: UP_PATH_REGEXP_test_def up_here_components up_after_components)
qed

text \<open>
  C1 (as amended). For a request whose path decodes: when the decoded path has a NUL byte
  \<open>pipe\<close> calls \<open>error(400)\<close> and makes no file-system stat, whether or not the path has a
  component \<open>..\<close>. Otherwise, when the checked path has a component \<open>..\<close>, \<open>pipe\<close> calls
  \<open>error(403)\<close> and makes no file-system stat, and the path check of \<open>pipe\<close> ends with
  status 403 for exactly these paths. Without a root the checked path is the decoded
  path; with a root it is the decoded path normalized as a relative path
  (\<open>normalize("." + sep + path)\<close>, the empty path as it is), so that a \<open>..\<close> which
  \<open>normalize\<close> removes is not rejected. With no error listener, \<open>error\<close> ends the response
  with the status it is called with.
\<close>

theorem traversal_forbidden:
  assumes "decodeURIComponent e (ss_path s) = Some p"
  shows "(CHR 0x00 \<in> set p \<longrightarrow> pipe e s res = (error e s res 400 None, [])) \<and>
         (CHR 0x00 \<notin> set p \<longrightarrow>
            (''..'' \<in> set (components (checked_path e s p)) \<longrightarrow>
               pipe e s res = (error e s res 403 None, [])) \<and>
            (pipe_path e s = Inl 403 \<longleftrightarrow> ''..'' \<in> set (components (checked_path e s p)))) \<and>
         (ss_root s = None \<longrightarrow> checked_path e s p = p) \<and>
         (ss_root s \<noteq> None \<longrightarrow>
            checked_path e s p = (if p = [] then p else path_normalize e (''.'' @ [path_sep e] @ p))) \<and>
         (\<not> ss_error_listener s \<and> CHR 0x00 \<in> set p \<and>
          (\<exists>msg. STATUS_CODES e 400 = Some msg \<and> msg \<noteq> []) \<longrightarrow>
            (\<exists>res'. pipe e s res = (Responded res', []) \<and> statusCode res' = 400)) \<and>
         (\<not> ss_error_listener s \<and> CHR 0x00 \<notin> set p \<and>
          ''..'' \<in> set (components (checked_path e s p)) \<and>
          (\<exists>msg. STATUS_CODES e 403 = Some msg \<and> msg \<noteq> []) \<longrightarrow>
            (\<exists>res'. pipe e s res = (Responded res', []) \<and> statusCode res' = 403))"
proof -
  have nul: "pipe e s res = (error e s res 400 None, [])" if "CHR 0x00 \<in> set p"
    using assms that by (simp add: pipe_def pipe_path_def Let_def)
  have check: "pipe_path e s = Inl 403 \<longleftrightarrow> ''..'' \<in> set (components (checked_path e s p))"
    if "CHR 0x00 \<notin> set p"
    using assms that
    by (auto simp: pipe_path_def checked_path_def Let_def UP_PATH_REGEXP_components
             split: option.splits)
  have up: "pipe e s res = (error e s res 403 None, [])"
    if "CHR 0x00 \<notin> set p" and "''..'' \<in> set (components (checked_path e s p))"
    using check [OF that(1)] that(2) by (simp add: pipe_def)
  have none: "checked_path e s p = p" if "ss_root s = None"
    using that by (simp add: checked_path_def)
  have some: "checked_path e s p = (if p = [] then p else path_normalize e (''.'' @ [path_sep e] @ p))"
    if "ss_root s \<noteq> None"
    using that by (auto simp: checked_path_def Let_def split: option.splits)
  have r400: "\<exists>res'. pipe e s res = (Responded res', []) \<and> statusCode res' = 400"
    if "\<not> ss_error_listener s" and "CHR 0x00 \<in> set p"
      and "STATUS_CODES e 400 = Some msg" and "msg \<noteq> []" for msg
    using error_responds [OF that(1,3,4), of res None] nul [OF that(2)] by auto
  have r403: "\<exists>res'. pipe e s res = (Responded res', []) \<and> statusCode res' = 403"
    if "\<not> ss_error_listener s" and "CHR 0x00 \<notin> set p"
      and "''..'' \<in> set (components (checked_path e s p))"
      and "STATUS_CODES e 403 = Some msg" and "msg \<noteq> []" for msg
    using error_responds [OF that(1,4,5), of res None] up [OF that(2,3)] by auto
  from nul check up none some r400 r403 show ?thesis by blast
qed

theorem traversal_forbidden_witness:
  "pipe example_env (example_stream ''GET'' Map.empty ''/%2e%2e/etc/passwd'' srv_options) new_response =
     (error example_env (example_stream ''GET'' Map.empty ''/%2e%2e/etc/passwd'' srv_options)
        new_response 403 None, []) \<and>
   pipe example_env (example_stream ''GET'' Map.empty ''/a/../b'' no_options) new_response =
     (error example_env (example_stream ''GET'' Map.empty ''/a/../b'' no_options)
        new_response 403 None, []) \<and>
   pipe example_env (example_stream ''GET'' Map.empty ''/../%00'' no_options) new_response =
     (error example_env (example_stream ''GET'' Map.empty ''/../%00'' no_options)
        new_response 400 None, []) \<and>
   pipe_path example_env (example_stream ''GET'' Map.empty ''/foo/../a.txt'' srv_options) \<noteq> Inl 403 \<and>
   map_option statusCode (written (fst (pipe example_env
     (example_stream ''GET'' Map.empty ''/%2e%2e/etc/passwd'' srv_options) new_response))) = Some 403 \<and>
   map_option statusCode (written (fst (pipe example_env
     (example_stream ''GET'' Map.empty ''/../%00'' no_options) new_response))) = Some 400"
proof -
  let ?s1 = "example_stream ''GET'' Map.empty ''/%2e%2e/etc/passwd'' srv_options"
  let ?s2 = "example_stream ''GET'' Map.empty ''/a/../b'' no_options"
  let ?s3 = "example_stream ''GET'' Map.empty ''/../%00'' no_options"
  let ?s4 = "example_stream ''GET'' Map.empty ''/foo/../a.txt'' srv_options"
  have d1: "decodeURIComponent example_env (ss_path ?s1) = Some ''/../etc/passwd''"
    by code_simp
  have n1: "CHR 0x00 \<notin> set ''/../etc/passwd''"
    by simp
  have c1: "''..'' \<in> set (components (checked_path example_env ?s1 ''/../etc/passwd''))"
    by code_simp
  have d2: "decodeURIComponent example_env (ss_path ?s2) = Some ''/a/../b''"
    by code_simp
  have n2: "CHR 0x00 \<notin> set ''/a/../b''"
    by simp
  have c2: "''..'' \<in> set (components (checked_path example_env ?s2 ''/a/../b''))"
    by code_simp
  have d3: "decodeURIComponent example_env (ss_path ?s3) = Some (''/../'' @ [CHR 0x00])"
    by code_simp
  have n3: "CHR 0x00 \<in> set (''/../'' @ [CHR 0x00])"
    by simp
  have d4: "decodeURIComponent example_env (ss_path ?s4) = Some ''/foo/../a.txt''"
    by code_simp
  have n4: "CHR 0x00 \<notin> set ''/foo/../a.txt''"
    by simp
  have c4: "''..'' \<notin> set (components (checked_path example_env ?s4 ''/foo/../a.txt''))"
    by code_simp
  from traversal_forbidden [OF d1, of new_response] n1 c1
  have "pipe example_env ?s1 new_response = (error example_env ?s1 new_response 403 None, [])"
    by blast
  moreover from traversal_forbidden [OF d2, of new_response] n2 c2
  have "pipe example_env ?s2 new_response = (error example_env ?s2 new_response 403 None, [])"
    by blast
  moreover from traversal_forbidden [OF d3, of new_response] n3
  have "pipe example_env ?s3 new_response = (error example_env ?s3 new_response 400 None, [])"
    by blast
  moreover from traversal_forbidden [OF d4, of new_response] n4 c4
  have "pipe_path example_env ?s4 \<noteq> Inl 403"
    by blast
  moreover have l1: "\<not> ss_error_listener ?s1" and m1: "STATUS_CODES example_env 403 = Some ''Forbidden''"
    by code_simp+
  have e1: "''Forbidden'' \<noteq> []"
    by simp
  from traversal_forbidden [OF d1, of new_response] n1 c1 l1 m1 e1
  have "\<exists>res'. pipe example_env ?s1 new_response = (Responded res', []) \<and> statusCode res' = 403"
    by blast
  then have "map_option statusCode (written (fst (pipe example_env ?s1 new_response))) = Some 403"
    by (auto simp: written_def)
  moreover have l3: "\<not> ss_error_listener ?s3" and m3: "STATUS_CODES example_env 400 = Some ''Bad Request''"
    by code_simp+
  have e3: "''Bad Request'' \<noteq> []"
    by simp
  from traversal_forbidden [OF d3, of new_response] n3 l3 m3 e3
  have "\<exists>res'. pipe example_env ?s3 new_response = (Responded res', []) \<and> statusCode res' = 400"
    by blast
  then have "map_option statusCode (written (fst (pipe example_env ?s3 new_response))) = Some 400"
    by (auto simp: written_def)
  ultimately show ?thesis by blast
qed

text \<open>
  With the root \<open>/srv\<close> the path \<open>/foo/../a.txt\<close> has a component \<open>..\<close>, yet the file
  \<open>/srv/a.txt\<close> is looked up and served with status 200; and the path \<open>/../%00\<close>, which
  has a component \<open>..\<close> once decoded, is answered with status 400.
\<close>

theorem traversal_counterexample:
  "''..'' \<in> set (components ''/foo/../a.txt'') \<and>
   decodeURIComponent example_env ''/foo/../a.txt'' = Some ''/foo/../a.txt'' \<and>
   snd (pipe example_env (example_stream ''GET'' Map.empty ''/foo/../a.txt'' srv_options) new_response) =
     [''/srv/a.txt''] \<and>
   map_option statusCode (written (fst (pipe example_env
     (example_stream ''GET'' Map.empty ''/foo/../a.txt'' srv_options) new_response))) = Some 200 \<and>
   decodeURIComponent example_env ''/../%00'' = Some (''/../'' @ [CHR 0x00]) \<and>
   ''..'' \<in> set (components (''/../'' @ [CHR 0x00])) \<and>
   map_option statusCode (written (fst (pipe example_env
     (example_stream ''GET'' Map.empty ''/../%00'' no_options) new_response))) = Some 400"
  by code_simp

text \<open>
  C2. With the \<open>dotfiles\<close> option omitted the constructor leaves \<open>_dotfiles\<close> undefined,
  and \<open>pipe\<close> treats the undefined value like \<open>ignore\<close>: for the root \<open>/srv\<close>, where
  the file \<open>/srv/.hidden/file.txt\<close> exists, a request for \<open>/.hidden/file.txt\<close> is
  answered with status 404 before any stat, although its last segment is no dotfile;
  with \<open>dotfiles: allow\<close> the same request is served.
\<close>

theorem legacy_dotfiles_directory:
  "opt_dotfiles srv_options = None \<and>
   ss_dotfiles (example_stream ''GET'' Map.empty ''/.hidden/file.txt'' srv_options) = None \<and>
   map_option statusCode (written (fst (pipe example_env
     (example_stream ''GET'' Map.empty ''/.hidden/file.txt'' srv_options) new_response))) = Some 404 \<and>
   snd (pipe example_env
     (example_stream ''GET'' Map.empty ''/.hidden/file.txt'' srv_options) new_response) = [] \<and>
   map_option statusCode (written (fst (pipe example_env
     (example_stream ''GET'' Map.empty ''/.hidden/file.txt''
        (srv_options\<lparr> opt_dotfiles := Some ''allow'' \<rparr>)) new_response))) = Some 200"
  by code_simp

section \<open>The \<open>Content-Range\<close> header on every reply\<close>

lemma error_result:
  assumes "error e s r status err = Responded res'"
  shows "statusCode res' = status \<and>
         res_getHeader res' ''Content-Range'' =
           (case err of
              Some er \<Rightarrow> (case err_headers er of
                            Some hs \<Rightarrow> res_getHeader (setHeaders (clearHeaders r) hs) ''Content-Range''
                          | None \<Rightarrow> None)
            | None \<Rightarrow> None)"
  using assms
  by (auto simp: error_def Let_def getHeader_setHeader getHeader_clearHeaders
        split: if_splits sum.splits option.splits)

lemma error_plain:
  assumes "error e s r status err = Responded res'"
    and "err = None \<or> (\<exists>er. err = Some er \<and> err_headers er = None)"
    and "status \<noteq> 206" and "status \<noteq> 416"
  shows "range_header_matches res'"
  using error_result [OF assms(1)] assms(2-4)
  by (auto simp: range_header_matches_def)

lemma onStatError_plain:
  assumes "onStatError e s r err = Responded res'" and "err_headers err = None"
  shows "range_header_matches res'"
  using assms
  by (auto simp: onStatError_def split: if_splits intro: error_plain)

lemma no_range_yet_matches: "no_range_yet r \<Longrightarrow> range_header_matches r"
  by (simp add: no_range_yet_def range_header_matches_def)

lemma matches_end [simp]: "range_header_matches (res_end r b) = range_header_matches r"
  by (simp add: range_header_matches_def)

lemma prepared_no_range_yet:
  assumes "no_range_yet r" and "ss_headers_listener s = None"
  shows "no_range_yet (prepared e s r path st)"
  using assms
  by (auto simp: no_range_yet_def prepared_def type_def setHeader_def Let_def getHeader_setHeader
        split: option.splits)

lemma getHeader_removeContentHeaderFields_None:
  assumes "res_getHeader r m = None"
  shows "res_getHeader (removeContentHeaderFields r) m = None"
proof -
  let ?step = "\<lambda>r header. if take 8 header = ''content-'' \<and> header \<noteq> ''content-location''
                            then res_removeHeader r header else r"
  have "res_getHeader r0 m = None \<Longrightarrow> res_getHeader (foldl ?step r0 names) m = None" for r0 names
    by (induction names arbitrary: r0) (auto simp: getHeader_removeHeader)
  with assms show ?thesis by (simp add: removeContentHeaderFields_def)
qed

lemma notModified_matches:
  assumes "notModified r = Responded res'" and "res_getHeader r ''Content-Range'' = None"
  shows "range_header_matches res'"
  using assms getHeader_removeContentHeaderFields_None [OF assms(2)]
  by (auto simp: notModified_def range_header_matches_def)

lemma send_transfer_matches:
  assumes "send_transfer r offset len = Transfer r' opts" and "range_header_matches r"
  shows "range_header_matches r'"
  using assms
  by (auto simp: send_transfer_def range_header_matches_def getHeader_setHeader)

text \<open>Every exit of the range support: a finished reply matches, and so does the response
  handed on for the transfer.\<close>

lemma send_ranges_matches:
  assumes "no_range_yet r1"
  shows "(\<forall>res'. send_ranges e s r1 offset len = Finished (Responded res') \<longrightarrow> range_header_matches res') \<and>
         (\<forall>r' opts. send_ranges e s r1 offset len = Transfer r' opts \<longrightarrow> range_header_matches r')"
proof -
  let ?ranges = "req_headers (ss_req s) ''range''"
  let ?parsed0 = "rangeParser len (case ?ranges of Some str \<Rightarrow> str | None \<Rightarrow> ''undefined'') True"
  let ?parsed = "if \<not> isRangeFresh e s r1 then Malformed else ?parsed0"
  let ?goal = "\<lambda>plan. (\<forall>res'. plan = Finished (Responded res') \<longrightarrow> range_header_matches res') \<and>
                       (\<forall>r' opts. plan = Transfer r' opts \<longrightarrow> range_header_matches r')"
  have r1_matches: "range_header_matches r1"
    using assms by (rule no_range_yet_matches)
  have plain: "?goal (send_transfer r1 offset len)"
    using r1_matches by (auto simp: send_transfer_def range_header_matches_def getHeader_setHeader)
  have partial: "?goal (send_transfer (res_setHeader (r1\<lparr> statusCode := 206 \<rparr>) ''Content-Range'' v) o1 l1)"
    for v o1 l1
    by (auto simp: send_transfer_def range_header_matches_def getHeader_setHeader)
  have unsat: "?goal (Finished (error e s (res_setHeader r1 ''Content-Range'' v) 416
                (Some \<lparr> err_code = None,
                        err_headers = Some (case res_getHeader (res_setHeader r1 ''Content-Range'' v)
                                                   ''Content-Range'' of
                                              Some v \<Rightarrow> [(''Content-Range'', v)]
                                            | None \<Rightarrow> []) \<rparr>)))" for v
  proof -
    have "range_header_matches res'"
      if "error e s (res_setHeader r1 ''Content-Range'' v) 416
            (Some \<lparr> err_code = None,
                    err_headers = Some (case res_getHeader (res_setHeader r1 ''Content-Range'' v)
                                               ''Content-Range'' of
                                          Some v \<Rightarrow> [(''Content-Range'', v)]
                                        | None \<Rightarrow> []) \<rparr>) = Responded res'" for res'
      using error_result [OF that]
      by (simp add: getHeader_setHeader setHeaders_def range_header_matches_def)
    then show ?thesis by simp
  qed
  show ?thesis
  proof (cases "ss_acceptRanges s \<and> BYTES_RANGE_REGEXP_test ?ranges")
    case False
    then have "send_ranges e s r1 offset len = send_transfer r1 offset len"
      by (auto simp: send_ranges_def Let_def)
    with plain show ?thesis by simp
  next
    case True
    show ?thesis
    proof (cases ?parsed)
      case Malformed
      with True have "send_ranges e s r1 offset len = send_transfer r1 offset len"
        by (simp add: send_ranges_def Let_def)
      with plain show ?thesis by simp
    next
      case Unsatisfiable
      with True have "send_ranges e s r1 offset len =
          Finished (error e s (res_setHeader r1 ''Content-Range'' (Str (contentRange ''bytes'' len None))) 416
                (Some \<lparr> err_code = None,
                        err_headers = Some (case res_getHeader (res_setHeader r1 ''Content-Range''
                                                      (Str (contentRange ''bytes'' len None)))
                                                   ''Content-Range'' of
                                              Some v \<Rightarrow> [(''Content-Range'', v)]
                                            | None \<Rightarrow> []) \<rparr>))"
        by (simp add: send_ranges_def Let_def)
      with unsat show ?thesis by simp
    next
      case (Ranges t rs)
      show ?thesis
      proof (cases rs)
        case Nil
        with True Ranges have "send_ranges e s r1 offset len = send_transfer r1 offset len"
          by (simp add: send_ranges_def Let_def)
        with plain show ?thesis by simp
      next
        case (Cons x xs)
        show ?thesis
        proof (cases xs)
          case Nil
          with True Ranges Cons have "send_ranges e s r1 offset len =
              send_transfer (res_setHeader (r1\<lparr> statusCode := 206 \<rparr>) ''Content-Range''
                               (Str (contentRange ''bytes'' len (Some x))))
                (offset + r_start x) (r_end x - r_start x + 1)"
            by (simp add: send_ranges_def Let_def)
          with partial show ?thesis by simp
        next
          case (Cons y ys)
          with True Ranges \<open>rs = x # xs\<close> have "send_ranges e s r1 offset len = send_transfer r1 offset len"
            by (simp add: send_ranges_def Let_def)
          with plain show ?thesis by simp
        qed
      qed
    qed
  qed
qed

lemma send_plan_matches:
  assumes "no_range_yet r" and "ss_headers_listener s = None"
  shows "(\<forall>res'. send_plan e s r path st = Finished (Responded res') \<longrightarrow> range_header_matches res') \<and>
         (\<forall>r' opts. send_plan e s r path st = Transfer r' opts \<longrightarrow> range_header_matches r')"
proof -
  let ?r1 = "type e (setHeader e s r path st) path"
  let ?goal = "\<lambda>plan. (\<forall>res'. plan = Finished (Responded res') \<longrightarrow> range_header_matches res') \<and>
                       (\<forall>r' opts. plan = Transfer r' opts \<longrightarrow> range_header_matches r')"
  have r1: "no_range_yet ?r1"
    using prepared_no_range_yet [OF assms] by (simp add: prepared_def)
  then have r1_none: "res_getHeader ?r1 ''Content-Range'' = None"
    by (simp add: no_range_yet_def)
  have sent: "?goal (Finished (headersAlreadySent e s r))"
    by (auto simp: headersAlreadySent_def intro: error_plain)
  have e412: "?goal (Finished (error e s ?r1 412 None))"
    by (auto intro: error_plain)
  have e304: "?goal (Finished (notModified ?r1))"
    using notModified_matches [OF _ r1_none] by auto
  show ?thesis
  proof (cases "headersSent r")
    case True
    then have "send_plan e s r path st = Finished (headersAlreadySent e s r)"
      by (simp add: send_plan_def)
    with sent show ?thesis by simp
  next
    case False
    note not_sent = this
    show ?thesis
    proof (cases "isConditionalGET s \<and> isPreconditionFailure e s ?r1")
      case True
      with not_sent have "send_plan e s r path st = Finished (error e s ?r1 412 None)"
        by (simp add: send_plan_def Let_def)
      with e412 show ?thesis by simp
    next
      case False
      note passes = this
      show ?thesis
      proof (cases "isConditionalGET s \<and> isCachable ?r1 \<and> isFresh e s ?r1")
        case True
        with not_sent passes have "send_plan e s r path st = Finished (notModified ?r1)"
          by (simp add: send_plan_def Let_def)
        with e304 show ?thesis by simp
      next
        case False
        with not_sent passes obtain offset len where
          "send_plan e s r path st = send_ranges e s ?r1 offset len"
          by (simp add: send_plan_def Let_def)
        with send_ranges_matches [OF r1, of e s offset len] show ?thesis by simp
      qed
    qed
  qed
qed

lemma send_matches:
  assumes "no_range_yet r" and "ss_headers_listener s = None"
    and "send e s r path st = Responded res'"
  shows "range_header_matches res'"
proof (cases "send_plan e s r path st")
  case (Finished out)
  with assms(3) send_plan_matches [OF assms(1,2), of e path st] show ?thesis
    by (simp add: send_def)
next
  case (Transfer r' opts)
  with send_plan_matches [OF assms(1,2), of e path st] have r': "range_header_matches r'"
    by simp
  from assms(3) Transfer show ?thesis
    using r' onStatError_plain [of e s r' _ res']
    by (auto simp: send_def stream_def split: if_splits sum.splits)
qed

lemma redirect_matches:
  assumes "no_range_yet r" and "redirect e s r path = Responded res'"
  shows "range_header_matches res'"
  using assms
  by (auto simp: redirect_def Let_def range_header_matches_def no_range_yet_def getHeader_setHeader
        split: if_splits dest: error_result)

lemma sendFile_next_matches:
  assumes "no_range_yet r" and "ss_headers_listener s = None"
    and "sendFile_next e s r path exts err = (Responded res', log)"
    and "err = None \<or> (\<exists>er. err = Some er \<and> err_headers er = None)"
  shows "range_header_matches res'"
  using assms(3,4)
proof (induction exts arbitrary: err log)
  case Nil
  then show ?case
    by (auto split: option.splits intro: error_plain onStatError_plain)
next
  case (Cons ext exts)
  show ?case
  proof (cases "fs_stat e (path @ ''.'' @ ext)")
    case (Inl code)
    with Cons.prems(1) obtain log' where
      "sendFile_next e s r path exts (Some \<lparr> err_code = Some code, err_headers = None \<rparr>) = (Responded res', log')"
      by (auto simp: Let_def split: prod.splits)
    then show ?thesis by (rule Cons.IH) simp
  next
    case (Inr st)
    show ?thesis
    proof (cases "st_isDirectory st")
      case True
      with Inr Cons.prems(1) obtain log' where
        "sendFile_next e s r path exts None = (Responded res', log')"
        by (auto simp: Let_def split: prod.splits)
      then show ?thesis by (rule Cons.IH) simp
    next
      case False
      with Inr Cons.prems(1) have "send e s r (path @ ''.'' @ ext) st = Responded res'"
        by (simp add: Let_def)
      then show ?thesis by (rule send_matches [OF assms(1,2)])
    qed
  qed
qed

lemma sendIndex_next_matches:
  assumes "no_range_yet r" and "ss_headers_listener s = None"
    and "sendIndex_next e s r path names err = (Responded res', log)"
    and "err = None \<or> (\<exists>er. err = Some er \<and> err_headers er = None)"
  shows "range_header_matches res'"
  using assms(3,4)
proof (induction names arbitrary: err log)
  case Nil
  then show ?case
    by (auto split: option.splits intro: error_plain onStatError_plain)
next
  case (Cons name names)
  show ?case
  proof (cases "fs_stat e (path_join e path name)")
    case (Inl code)
    with Cons.prems(1) obtain log' where
      "sendIndex_next e s r path names (Some \<lparr> err_code = Some code, err_headers = None \<rparr>) = (Responded res', log')"
      by (auto simp: Let_def split: prod.splits)
    then show ?thesis by (rule Cons.IH) simp
  next
    case (Inr st)
    show ?thesis
    proof (cases "st_isDirectory st")
      case True
      with Inr Cons.prems(1) obtain log' where
        "sendIndex_next e s r path names None = (Responded res', log')"
        by (auto simp: Let_def split: prod.splits)
      then show ?thesis by (rule Cons.IH) simp
    next
      case False
      with Inr Cons.prems(1) have "send e s r (path_join e path name) st = Responded res'"
        by (simp add: Let_def)
      then show ?thesis by (rule send_matches [OF assms(1,2)])
    qed
  qed
qed

lemma sendFile_matches:
  assumes "no_range_yet r" and "ss_headers_listener s = None"
    and "sendFile e s r path = (Responded res', log)"
  shows "range_header_matches res'"
proof (cases "fs_stat e path")
  case (Inl code)
  show ?thesis
  proof (cases "code = ''ENOENT'' \<and> path_extname e path = [] \<and> (path = [] \<or> last path \<noteq> path_sep e)")
    case True
    with Inl assms(3) obtain log' where
      "sendFile_next e s r path (ss_extensions s) (Some \<lparr> err_code = Some code, err_headers = None \<rparr>)
         = (Responded res', log')"
      by (auto simp: sendFile_def Let_def split: prod.splits)
    then show ?thesis by (rule sendFile_next_matches [OF assms(1,2)]) simp
  next
    case False
    with Inl assms(3) have "onStatError e s r \<lparr> err_code = Some code, err_headers = None \<rparr> = Responded res'"
      by (auto simp: sendFile_def Let_def)
    then show ?thesis by (rule onStatError_plain) simp
  qed
next
  case (Inr st)
  with assms(3) have "redirect e s r path = Responded res' \<or> send e s r path st = Responded res'"
    by (auto simp: sendFile_def split: if_splits)
  then show ?thesis
    using redirect_matches [OF assms(1)] send_matches [OF assms(1,2)] by blast
qed

text \<open>
  C7 (as amended). For a response that, when handed to \<open>pipe\<close>, has no \<open>Content-Range\<close>
  header and a status other than 206 and 416 (a status the caller has set stays on a reply
  that \<open>send\<close> does not turn into a 206), and with no \<open>headers\<close> listener attached: whenever the
  Responder itself ends the response, the \<open>Content-Range\<close> header is on it exactly when
  its status is 206 or 416.
\<close>

theorem content_range_iff_partial_or_unsatisfiable:
  assumes "pipe e s res = (Responded res', log)"
    and "ss_headers_listener s = None"
    and "res_getHeader res ''Content-Range'' = None"
    and "statusCode res \<noteq> 206" and "statusCode res \<noteq> 416"
  shows "res_getHeader res' ''Content-Range'' \<noteq> None \<longleftrightarrow> statusCode res' = 206 \<or> statusCode res' = 416"
proof -
  have start: "no_range_yet res"
    using assms(3-5) by (simp add: no_range_yet_def)
  have serve: "pipe_serve e s res path = (Responded res', log) \<Longrightarrow> range_header_matches res'" for path
    using sendFile_matches [OF start assms(2)] sendIndex_next_matches [OF start assms(2)]
    by (auto simp: pipe_serve_def sendIndex_def split: if_splits)
  have err: "error e s res status None = Responded res' \<Longrightarrow> status \<noteq> 206 \<Longrightarrow> status \<noteq> 416
             \<Longrightarrow> range_header_matches res'" for status
    by (rule error_plain) auto
  have status: "pipe_path e s = Inl st \<Longrightarrow> st = 400 \<or> st = 403" for st
    by (auto simp: pipe_path_def Let_def split: option.splits if_splits)
  have "range_header_matches res'"
  proof (cases "pipe_path e s")
    case (Inl st)
    with assms(1) have "error e s res st None = Responded res'"
      by (simp add: pipe_def)
    with status [OF Inl] show ?thesis
      by (auto intro: err)
  next
    case (Inr pp)
    obtain parts path where pp: "pp = (parts, path)" by (cases pp)
    from assms(1) Inr pp
    have "pipe_serve e s res path = (Responded res', log) \<or>
          error e s res 403 None = Responded res' \<or> error e s res 404 None = Responded res'"
      by (auto simp: pipe_def Let_def split: if_splits)
    then show ?thesis
      using serve err by auto
  qed
  then show ?thesis by (simp add: range_header_matches_def)
qed

theorem content_range_iff_witness:
  "\<exists>res' log.
     pipe example_env (example_stream ''GET'' [''range'' \<mapsto> ''bytes=1-3''] ''/a.txt'' srv_options)
       new_response = (Responded res', log) \<and>
     statusCode res' = 206 \<and> res_getHeader res' ''Content-Range'' \<noteq> None"
proof -
  let ?s = "example_stream ''GET'' [''range'' \<mapsto> ''bytes=1-3''] ''/a.txt'' srv_options"
  have "map_option statusCode (written (fst (pipe example_env ?s new_response))) = Some 206"
    by code_simp
  then obtain res' where out: "fst (pipe example_env ?s new_response) = Responded res'"
    and status: "statusCode res' = 206"
    by (auto simp: written_def split: outcome.splits)
  from out have run: "pipe example_env ?s new_response = (Responded res', snd (pipe example_env ?s new_response))"
    by (metis prod.collapse)
  have 2: "ss_headers_listener ?s = None"
    by (simp add: example_stream_srv)
  have 3: "res_getHeader new_response ''Content-Range'' = None"
    by (simp add: res_getHeader_def new_response_def)
  have 4: "statusCode new_response \<noteq> 206" and 5: "statusCode new_response \<noteq> 416"
    by (simp_all add: new_response_def)
  from content_range_iff_partial_or_unsatisfiable [OF run 2 3 4 5] status
  have "res_getHeader res' ''Content-Range'' \<noteq> None" by simp
  with run status show ?thesis by blast
qed

text \<open>A response that the caller hands to \<open>pipe\<close> with status 206 already set, for a
  request without a \<open>Range\<close> header: no header listener, no \<open>Content-Range\<close> beforehand,
  and the reply keeps status 206 without a \<open>Content-Range\<close> header.\<close>

theorem content_range_preset_status_counterexample:
  "ss_headers_listener (example_stream ''GET'' Map.empty ''/a.txt'' srv_options) = None \<and>
   res_headers (new_response\<lparr> statusCode := 206 \<rparr>) = [] \<and>
   map_option statusCode (written (fst (pipe example_env
     (example_stream ''GET'' Map.empty ''/a.txt'' srv_options)
     (new_response\<lparr> statusCode := 206 \<rparr>)))) = Some 206 \<and>
   written_header (fst (pipe example_env
     (example_stream ''GET'' Map.empty ''/a.txt'' srv_options)
     (new_response\<lparr> statusCode := 206 \<rparr>))) ''Content-Range'' = None"
proof -
  have "ss_headers_listener (example_stream ''GET'' Map.empty ''/a.txt'' srv_options) = None"
    by (simp add: example_stream_srv)
  moreover have "res_headers (new_response\<lparr> statusCode := 206 \<rparr>) = []"
    by (simp add: new_response_def)
  moreover have "map_option statusCode (written (fst (pipe example_env
     (example_stream ''GET'' Map.empty ''/a.txt'' srv_options)
     (new_response\<lparr> statusCode := 206 \<rparr>)))) = Some 206"
    by code_simp
  moreover have "written_header (fst (pipe example_env
     (example_stream ''GET'' Map.empty ''/a.txt'' srv_options)
     (new_response\<lparr> statusCode := 206 \<rparr>))) ''Content-Range'' = None"
    by code_simp
  ultimately show ?thesis by blast
qed

section \<open>The constructor\<close>

lemma normalizeList_cases:
  "normalizeList v name =
     (if v = Flag True then Inl (TypeError (name @ '' must be array of strings or false''))
      else Inr (case v of Flag b \<Rightarrow> [] | Single str \<Rightarrow> (if str = [] then [] else [str])
                        | Several list \<Rightarrow> list))"
  by (cases v) (auto simp: normalizeList_def)

text \<open>
  C9 (as amended). The constructor throws the \<open>TypeError\<close> of the \<open>dotfiles\<close> option
  when the option is defined and is none of \<open>allow\<close>, \<open>deny\<close> and \<open>ignore\<close>, whatever the
  request, the path, the other options and the environment (so the file system) are: the
  check comes before anything else that can fail. With the option omitted or valid, the
  constructor throws the \<open>TypeError\<close> of \<open>normalizeList\<close> when \<open>extensions\<close> is \<open>true\<close>, else
  when \<open>index\<close> is \<open>true\<close>, else the \<open>Error\<close> of \<open>ms\<close> when \<open>maxAge\<close> is the empty string, and
  otherwise it does not throw and returns the stream, with \<open>_dotfiles\<close> the option as
  given.
\<close>

theorem dotfiles_option_validated:
  "(\<forall>d. opt_dotfiles opts = Some d \<and> d \<noteq> ''allow'' \<and> d \<noteq> ''deny'' \<and> d \<noteq> ''ignore'' \<longrightarrow>
      SendStream e req path opts =
        Inl (TypeError ''dotfiles option must be \"allow\", \"deny\", or \"ignore\"'')) \<and>
   (opt_dotfiles opts \<in> {None, Some ''allow'', Some ''deny'', Some ''ignore''} \<longrightarrow>
      (if opt_extensions opts = Some (Flag True) then
         SendStream e req path opts =
           Inl (TypeError ''extensions option must be array of strings or false'')
       else if opt_index opts = Some (Flag True) then
         SendStream e req path opts =
           Inl (TypeError ''index option must be array of strings or false'')
       else if opt_maxAge opts = Some (Duration []) then
         SendStream e req path opts =
           Inl (Error ''val is not a non-empty string or a valid number. val=\"\"'')
       else (\<exists>s. SendStream e req path opts = Inr s \<and> ss_dotfiles s = opt_dotfiles opts)))"
proof -
  have invalid: "SendStream e req path opts =
        Inl (TypeError ''dotfiles option must be \"allow\", \"deny\", or \"ignore\"'')"
    if "opt_dotfiles opts = Some d" "d \<noteq> ''allow''" "d \<noteq> ''deny''" "d \<noteq> ''ignore''" for d
    using that by (simp add: SendStream_def)
  have valid: "(if opt_extensions opts = Some (Flag True) then
         SendStream e req path opts =
           Inl (TypeError ''extensions option must be array of strings or false'')
       else if opt_index opts = Some (Flag True) then
         SendStream e req path opts =
           Inl (TypeError ''index option must be array of strings or false'')
       else if opt_maxAge opts = Some (Duration []) then
         SendStream e req path opts =
           Inl (Error ''val is not a non-empty string or a valid number. val=\"\"'')
       else (\<exists>s. SendStream e req path opts = Inr s \<and> ss_dotfiles s = opt_dotfiles opts))"
    if ok: "opt_dotfiles opts \<in> {None, Some ''allow'', Some ''deny'', Some ''ignore''}"
  proof -
    let ?d0 = "case opt_dotfiles opts of Some d \<Rightarrow> d | None \<Rightarrow> ''ignore''"
    from ok have d0: "\<not> (?d0 \<noteq> ''ignore'' \<and> ?d0 \<noteq> ''allow'' \<and> ?d0 \<noteq> ''deny'')"
      by auto
    from ok have kept: "(if opt_dotfiles opts = None then None else Some ?d0) = opt_dotfiles opts"
      by auto
    show ?thesis
    proof (cases "opt_extensions opts = Some (Flag True)")
      case True
      with d0 show ?thesis
        by (simp add: SendStream_def Let_def normalizeList_cases)
    next
      case False
      note ext = this
      then obtain exts where exts:
        "(case opt_extensions opts of Some v \<Rightarrow> normalizeList v ''extensions option'' | None \<Rightarrow> Inr []) = Inr exts"
        by (cases "opt_extensions opts") (auto simp: normalizeList_cases)
      show ?thesis
      proof (cases "opt_index opts = Some (Flag True)")
        case True
        with d0 ext exts show ?thesis
          by (simp add: SendStream_def Let_def normalizeList_cases)
      next
        case False
        note idx = this
        then obtain names where names:
          "(case opt_index opts of Some v \<Rightarrow> normalizeList v ''index option'' | None \<Rightarrow> Inr [''index.html'']) = Inr names"
          by (cases "opt_index opts") (auto simp: normalizeList_cases)
        show ?thesis
        proof (cases "opt_maxAge opts = Some (Duration [])")
          case True
          with d0 ext idx exts names show ?thesis
            by (simp add: SendStream_def Let_def ms_def)
        next
          case False
          then have "\<exists>maxage. (case opt_maxAge opts of Some (Duration str) \<Rightarrow> ms e str
              | Some (Millis n) \<Rightarrow> Inr n | None \<Rightarrow> Inr None) = Inr maxage"
            by (simp add: ms_def split: option.splits maxage_option.splits)
          then obtain maxage where maxage:
            "(case opt_maxAge opts of Some (Duration str) \<Rightarrow> ms e str | Some (Millis n) \<Rightarrow> Inr n
              | None \<Rightarrow> Inr None) = Inr maxage"
            by blast
          with d0 ext idx False exts names kept show ?thesis
            by (simp add: SendStream_def Let_def)
        qed
      qed
    qed
  qed
  from invalid valid show ?thesis by blast
qed

theorem dotfiles_option_validated_witness:
  "SendStream example_env \<lparr> req_method = ''GET'', req_headers = Map.empty \<rparr> ''/a.txt''
     (no_options\<lparr> opt_dotfiles := Some ''hide'' \<rparr>) =
     Inl (TypeError ''dotfiles option must be \"allow\", \"deny\", or \"ignore\"'') \<and>
   map_sum id ss_dotfiles
     (SendStream example_env \<lparr> req_method = ''GET'', req_headers = Map.empty \<rparr> ''/a.txt''
        (no_options\<lparr> opt_dotfiles := Some ''deny'' \<rparr>)) = Inr (Some ''deny'') \<and>
   map_sum id ss_dotfiles
     (SendStream example_env \<lparr> req_method = ''GET'', req_headers = Map.empty \<rparr> ''/a.txt''
        no_options) = Inr None \<and>
   SendStream example_env \<lparr> req_method = ''GET'', req_headers = Map.empty \<rparr> ''/a.txt''
     (no_options\<lparr> opt_dotfiles := Some ''allow'', opt_maxAge := Some (Duration []) \<rparr>) =
     Inl (Error ''val is not a non-empty string or a valid number. val=\"\"'')"
proof -
  let ?req = "\<lparr> req_method = ''GET'', req_headers = Map.empty \<rparr>"
  have 1: "SendStream example_env ?req ''/a.txt'' (no_options\<lparr> opt_dotfiles := Some ''hide'' \<rparr>) =
     Inl (TypeError ''dotfiles option must be \"allow\", \"deny\", or \"ignore\"'')"
    using dotfiles_option_validated [where e = example_env and req = ?req and path = "''/a.txt''"
      and opts = "no_options\<lparr> opt_dotfiles := Some ''hide'' \<rparr>"]
    by (simp add: no_options_def)
  have 2: "map_sum id ss_dotfiles
     (SendStream example_env ?req ''/a.txt'' (no_options\<lparr> opt_dotfiles := Some ''deny'' \<rparr>)) =
     Inr (Some ''deny'')"
    using dotfiles_option_validated [where e = example_env and req = ?req and path = "''/a.txt''"
      and opts = "no_options\<lparr> opt_dotfiles := Some ''deny'' \<rparr>"]
    by (auto simp: no_options_def)
  have 3: "map_sum id ss_dotfiles (SendStream example_env ?req ''/a.txt'' no_options) = Inr None"
    using dotfiles_option_validated [where e = example_env and req = ?req and path = "''/a.txt''"
      and opts = no_options]
    by (auto simp: no_options_def)
  have 4: "SendStream example_env ?req ''/a.txt''
     (no_options\<lparr> opt_dotfiles := Some ''allow'', opt_maxAge := Some (Duration []) \<rparr>) =
     Inl (Error ''val is not a non-empty string or a valid number. val=\"\"'')"
    using dotfiles_option_validated [where e = example_env and req = ?req and path = "''/a.txt''"
      and opts = "no_options\<lparr> opt_dotfiles := Some ''allow'', opt_maxAge := Some (Duration []) \<rparr>"]
    by (simp add: no_options_def)
  from 1 2 3 4 show ?thesis by blast
qed

text \<open>
  Counterexample to C9 as stated: with the \<open>dotfiles\<close> option omitted, the options
  \<open>{extensions: true}\<close> make the constructor throw.
\<close>

theorem dotfiles_omitted_constructor_throws_counterexample:
  "opt_dotfiles (no_options\<lparr> opt_extensions := Some (Flag True) \<rparr>) = None \<and>
   SendStream example_env \<lparr> req_method = ''GET'', req_headers = Map.empty \<rparr> ''/a.txt''
     (no_options\<lparr> opt_extensions := Some (Flag True) \<rparr>) =
     Inl (TypeError ''extensions option must be array of strings or false'')"
  by (simp add: SendStream_def normalizeList_def no_options_def)

section \<open>The range parser on concrete headers\<close>

text \<open>
  C8. With \<open>combine\<close> the parser is meant to return the combined ranges in the order of
  the earliest client range merged into each. For \<open>bytes=2-3,10-11,0-5\<close> on 20 bytes
  the range \<open>0-5\<close> absorbs \<open>2-3\<close>, the first range of the header, yet it is returned
  after \<open>10-11\<close>: the index of a range that is contained in the current one is not
  taken into the minimum.
\<close>

theorem rangeParser_contained_range_order:
  "rangeParser 20 ''bytes=2-3,10-11,0-5'' True =
     Ranges ''bytes'' [\<lparr>r_start = 10, r_end = 11\<rparr>, \<lparr>r_start = 0, r_end = 5\<rparr>]"
  by code_simp

end
